theory Spec2Isabelle
  imports Complex_Main "HOL-Library.Multiset"
begin

section \<open>gotrack: the Pomodoro timer engine, the session log and the analytics functions\<close>

text \<open>
  A shallow embedding of three packages of the repository:
  \<^item> \<^verbatim>\<open>internal/tracker/pomodoro\<close> (\<^verbatim>\<open>pomodoro.go\<close> and the \<^verbatim>\<open>State\<close> type),
  \<^item> \<^verbatim>\<open>internal/tracker\<close> (\<^verbatim>\<open>SessionManager\<close>) over \<^verbatim>\<open>internal/storage\<close> (\<^verbatim>\<open>FileStorage\<close>),
  \<^item> \<^verbatim>\<open>internal/tracker/analytics\<close>.

  The engine is modelled twice. Each method of \<^verbatim>\<open>Pomodoro\<close>, and one iteration of the
  goroutine started by \<^verbatim>\<open>startTicker\<close>, is a function on the struct that runs the method
  from its first to its last line. The methods give up \<^verbatim>\<open>p.mu\<close> before their callbacks, and
  another method can run at that point; so the stretches between two such points are
  functions of their own, and a run of the engine is a sequence of these stretches in any
  order the code allows.
\<close>

subsection \<open>Machine integers and time\<close>

text \<open>
  \<^verbatim>\<open>time.Duration\<close> is an \<^verbatim>\<open>int64\<close> count of nanoseconds, and \<^verbatim>\<open>int\<close> is 64 bits wide on the
  targets the tool is built for. Both are modelled as \<^typ>\<open>int\<close> with the two's-complement
  wrap-around written out at every addition and subtraction of the source.
\<close>

type_synonym Duration = int
type_synonym goint = int

definition wrap64 :: "int \<Rightarrow> int" where
  "wrap64 x = (x + 2 ^ 63) mod 2 ^ 64 - 2 ^ 63"

definition int64 :: "int \<Rightarrow> bool" where
  "int64 x = (- (2 ^ 63) \<le> x \<and> x < 2 ^ 63)"

text \<open>Go's \<^verbatim>\<open>%\<close> truncates towards zero: the remainder has the sign of the dividend.\<close>

definition go_rem :: "int \<Rightarrow> int \<Rightarrow> int" where
  "go_rem a b = sgn a * (\<bar>a\<bar> mod \<bar>b\<bar>)"

definition Millisecond :: Duration where
  "Millisecond = 1000000"

text \<open>
  A \<^verbatim>\<open>time.Time\<close> is modelled by the nanoseconds elapsed since Go's zero time
  (January 1, year 1, 00:00 UTC) and by the offset from UTC, in nanoseconds, of the
  location the value carries, as it is in force at that instant; \<^verbatim>\<open>time.Time{}\<close> is
  \<open>zeroTime\<close>. Every call of \<^verbatim>\<open>time.Now()\<close> is an argument \<open>now\<close> of the function that makes
  it, or the \<open>clock\<close> of the environment of an analytics function.
\<close>

record Time =
  nanos :: int
  utcOffset :: int

definition zeroTime :: Time where
  "zeroTime = \<lparr> nanos = 0, utcOffset = 0 \<rparr>"

definition IsZero :: "Time \<Rightarrow> bool" where
  "IsZero t = (nanos t = 0)"

text \<open>A time given in UTC by its nanoseconds.\<close>

definition utc :: "int \<Rightarrow> Time" where
  "utc n = \<lparr> nanos = n, utcOffset = 0 \<rparr>"

definition After :: "Time \<Rightarrow> Time \<Rightarrow> bool" where
  "After t u = (nanos u < nanos t)"

text \<open>\<^verbatim>\<open>t.Sub(u)\<close> saturates at the least and the greatest \<^verbatim>\<open>Duration\<close>.\<close>

definition Sub :: "Time \<Rightarrow> Time \<Rightarrow> Duration" where
  "Sub t u =
     (let d = nanos t - nanos u
      in if int64 d then d else if nanos t < nanos u then - (2 ^ 63) else 2 ^ 63 - 1)"

definition Hour :: Duration where
  "Hour = 60 * 60 * 1000 * Millisecond"

text \<open>
  The calendar day of a time in its own location, counted from January 1 of year 1. Two
  times print the same \<^verbatim>\<open>Format("2006-01-02")\<close> exactly when they fall on the same day, so
  the day number stands for the formatted string.
\<close>

definition dayOf :: "Time \<Rightarrow> int" where
  "dayOf t = (nanos t + utcOffset t) div (24 * Hour)"

definition Before :: "Time \<Rightarrow> Time \<Rightarrow> bool" where
  "Before t u = (nanos t < nanos u)"

text \<open>\<^verbatim>\<open>t.Truncate(d)\<close> rounds the time since the zero time down to a multiple of \<open>d\<close>. The
  offset of the result is left as it is: the package reads the result with \<^verbatim>\<open>Sub\<close> only.\<close>

definition Truncate :: "Duration \<Rightarrow> Time \<Rightarrow> Time" where
  "Truncate d t = (if d \<le> 0 then t else t\<lparr>nanos := nanos t - nanos t mod d\<rparr>)"

subsection \<open>The timer engine: data\<close>

datatype State = StateIdle | StateWorking | StateShortBreak | StateLongBreak | StatePaused

record PomodoroConfig =
  WorkDuration :: Duration
  BreakDuration :: Duration
  LongBreak :: Duration
  LongBreakInterval :: goint
  AutoStartBreak :: bool

text \<open>
  \<^verbatim>\<open>p.ticker\<close> is \<open>None\<close> when nil, otherwise the \<^verbatim>\<open>time.Ticker\<close> it points to, which is
  running or was stopped. \<^verbatim>\<open>p.tickerQuit\<close> is \<open>None\<close> when nil, otherwise a channel; every
  \<^verbatim>\<open>close(p.tickerQuit)\<close> of the source is followed by \<^verbatim>\<open>p.tickerQuit = nil\<close> under the same
  lock, so a channel held in the field is open, and the goroutine listening on it is alive.
\<close>

datatype ticker = TickerRunning | TickerStopped

datatype chan = ChanOpen

text \<open>What the engine has told its callbacks: one entry per invocation.\<close>

datatype callback = StateChange State | Tick Duration

text \<open>
  The struct \<^verbatim>\<open>Pomodoro\<close>. The two callback fields record whether the function value is
  non-nil; \<open>calls\<close> is not a field of the struct: it is the sequence of callback
  invocations made so far, oldest first.
\<close>

record Pomodoro =
  config :: PomodoroConfig
  state :: State
  remaining :: Duration
  cycles :: goint
  workSessions :: goint
  ticker :: "ticker option"
  tickerQuit :: "chan option"
  lastTick :: Time
  onStateChange :: bool
  onTick :: bool
  calls :: "callback list"

definition active :: "State \<Rightarrow> bool" where
  "active s = (s = StateWorking \<or> s = StateShortBreak \<or> s = StateLongBreak)"

subsection \<open>The timer engine: operations\<close>

definition New :: "PomodoroConfig \<Rightarrow> Pomodoro" where
  "New cfg = \<lparr> config = cfg, state = StateIdle, remaining = WorkDuration cfg,
               cycles = 0, workSessions = 0, ticker = None, tickerQuit = None,
               lastTick = zeroTime, onStateChange = True, onTick = True, calls = [] \<rparr>"

text \<open>\<^verbatim>\<open>if p.onStateChange != nil { p.onStateChange(newState) }\<close>\<close>

definition notifyState :: "State \<Rightarrow> Pomodoro \<Rightarrow> Pomodoro" where
  "notifyState s p = (if onStateChange p then p\<lparr>calls := calls p @ [StateChange s]\<rparr> else p)"

text \<open>\<^verbatim>\<open>if p.onTick != nil { p.onTick(remaining) }\<close>\<close>

definition notifyTick :: "Duration \<Rightarrow> Pomodoro \<Rightarrow> Pomodoro" where
  "notifyTick r p = (if onTick p then p\<lparr>calls := calls p @ [Tick r]\<rparr> else p)"

text \<open>\<^verbatim>\<open>if p.ticker != nil { p.ticker.Stop() }\<close>\<close>

definition stopTicker :: "Pomodoro \<Rightarrow> Pomodoro" where
  "stopTicker p = (case ticker p of None \<Rightarrow> p | Some _ \<Rightarrow> p\<lparr>ticker := Some TickerStopped\<rparr>)"

text \<open>\<^verbatim>\<open>if p.tickerQuit != nil { close(p.tickerQuit); p.tickerQuit = nil }\<close>\<close>

definition closeQuit :: "Pomodoro \<Rightarrow> Pomodoro" where
  "closeQuit p = (case tickerQuit p of None \<Rightarrow> p | Some _ \<Rightarrow> p\<lparr>tickerQuit := None\<rparr>)"

text \<open>
  \<^verbatim>\<open>startTicker\<close>: retires the previous ticker and goroutine, then arms a new ticker of
  100 ms and starts the goroutine that reads it.
\<close>

definition startTicker :: "Time \<Rightarrow> Pomodoro \<Rightarrow> Pomodoro" where
  "startTicker now p =
     (let p1 = stopTicker p;
          p2 = closeQuit p1
      in p2\<lparr>ticker := Some TickerRunning, tickerQuit := Some ChanOpen, lastTick := now\<rparr>)"

text \<open>
  \<^verbatim>\<open>Start\<close> returns the error (its message) or nil, and the struct as it leaves it. The
  error is made by \<^verbatim>\<open>fmt.Errorf\<close>; the package's variable \<^verbatim>\<open>ErrAlreadyRunning\<close> is declared
  but not returned.
\<close>

definition ErrAlreadyRunning :: string where
  "ErrAlreadyRunning = ''pomodoro is already running''"

definition Start :: "Time \<Rightarrow> Pomodoro \<Rightarrow> string option \<times> Pomodoro" where
  "Start now p =
     (if state p = StateWorking \<or> state p = StateShortBreak \<or> state p = StateLongBreak
      then (Some ''cannot start: timer is already running'', p)
      else
        let p1 = (if state p = StatePaused then p\<lparr>state := StateWorking\<rparr>
                  else p\<lparr>remaining := WorkDuration (config p), state := StateWorking\<rparr>);
            newState = state p1;
            p2 = notifyState newState p1
        in (None, startTicker now p2))"

definition Pause :: "Pomodoro \<Rightarrow> Pomodoro" where
  "Pause p =
     (if state p \<noteq> StateWorking \<and> state p \<noteq> StateShortBreak \<and> state p \<noteq> StateLongBreak
      then p
      else
        let p1 = stopTicker p;
            p2 = p1\<lparr>state := StatePaused\<rparr>;
            newState = state p2
        in notifyState newState p2)"

definition Stop :: "Pomodoro \<Rightarrow> Pomodoro" where
  "Stop p =
     (let p1 = (case ticker p of None \<Rightarrow> p | Some _ \<Rightarrow> (stopTicker p)\<lparr>ticker := None\<rparr>);
          p2 = closeQuit p1;
          p3 = p2\<lparr>state := StateIdle, cycles := 0, workSessions := 0, lastTick := zeroTime\<rparr>;
          newState = state p3
      in notifyState newState p3)"

text \<open>The accessors \<^verbatim>\<open>State()\<close> (here \<open>StateOf\<close>), \<^verbatim>\<open>Cycles()\<close> and \<^verbatim>\<open>Remaining()\<close>.\<close>

definition StateOf :: "Pomodoro \<Rightarrow> State" where
  "StateOf p = state p"

definition Cycles :: "Pomodoro \<Rightarrow> goint" where
  "Cycles p = cycles p"

definition Remaining :: "Pomodoro \<Rightarrow> Duration" where
  "Remaining p = remaining p"

text \<open>
  \<^verbatim>\<open>completeSession\<close>. The only panic of the package is the integer division by zero of
  \<^verbatim>\<open>p.workSessions%p.config.LongBreakInterval\<close>, evaluated only when
  \<^verbatim>\<open>p.workSessions > 0\<close>; it is the \<open>Inl\<close> result.
\<close>

datatype panic = DivideByZero

definition completeSession :: "Time \<Rightarrow> Pomodoro \<Rightarrow> panic + Pomodoro" where
  "completeSession now p =
     (let p1 = (case ticker p of None \<Rightarrow> p | Some _ \<Rightarrow> (stopTicker p)\<lparr>ticker := None\<rparr>);
          p2 = closeQuit p1;
          r = (case state p2 of
                 StateWorking \<Rightarrow>
                   let p3 = p2\<lparr>workSessions := wrap64 (workSessions p2 + 1)\<rparr>;
                       p4 = p3\<lparr>cycles := wrap64 (cycles p3 + 1)\<rparr>
                   in if 0 < workSessions p4 \<and> LongBreakInterval (config p4) = 0
                      then Inl DivideByZero
                      else if 0 < workSessions p4
                              \<and> go_rem (workSessions p4) (LongBreakInterval (config p4)) = 0
                      then Inr (p4\<lparr>remaining := LongBreak (config p4), state := StateLongBreak\<rparr>)
                      else Inr (p4\<lparr>remaining := BreakDuration (config p4), state := StateShortBreak\<rparr>)
               | StateShortBreak \<Rightarrow>
                   Inr (p2\<lparr>remaining := WorkDuration (config p2), state := StateWorking\<rparr>)
               | StateLongBreak \<Rightarrow>
                   Inr (p2\<lparr>remaining := WorkDuration (config p2), state := StateWorking\<rparr>)
               | _ \<Rightarrow> Inr p2)
      in case r of
           Inl e \<Rightarrow> Inl e
         | Inr p5 \<Rightarrow>
             let newState = state p5;
                 autoStart = (AutoStartBreak (config p5) \<or> state p5 = StateWorking);
                 p6 = notifyState newState p5
             in Inr (if autoStart then startTicker now p6 else p6))"

text \<open>
  One iteration of the goroutine's loop on \<^verbatim>\<open>case <-localTicker.C\<close>. The result says whether
  the goroutine goes on to its next \<^verbatim>\<open>select\<close> or returns, and gives the struct.
\<close>

datatype loop = LoopContinue | LoopReturn

definition onTickerC :: "Time \<Rightarrow> Pomodoro \<Rightarrow> panic + (loop \<times> Pomodoro)" where
  "onTickerC now p =
     (if state p \<noteq> StateWorking \<and> state p \<noteq> StateShortBreak \<and> state p \<noteq> StateLongBreak
      then Inr (LoopContinue, p)
      else
        let p1 = p\<lparr>remaining := wrap64 (remaining p - 100 * Millisecond)\<rparr>;
            remaining' = remaining p1;
            shouldContinue =
              (if remaining' \<le> 0
               then state p1 = StateWorking
                    \<or> (state p1 = StateShortBreak \<and> AutoStartBreak (config p1))
                    \<or> (state p1 = StateLongBreak \<and> AutoStartBreak (config p1))
               else False);
            p2 = notifyTick remaining' p1
        in if remaining' \<le> 0
           then (case completeSession now p2 of
                   Inl e \<Rightarrow> Inl e
                 | Inr p3 \<Rightarrow> Inr (if \<not> shouldContinue then LoopReturn else LoopContinue, p3))
           else Inr (LoopContinue, p2))"

text \<open>
  \<^verbatim>\<open>ticking\<close>: the struct holds a running ticker and the goroutine reading it is alive (its
  quit channel is open).
\<close>

definition ticking :: "Pomodoro \<Rightarrow> bool" where
  "ticking p = (ticker p = Some TickerRunning \<and> tickerQuit p = Some ChanOpen)"

subsection \<open>The timer engine: critical sections and their interleavings\<close>

text \<open>
  \<^verbatim>\<open>Start\<close>, \<^verbatim>\<open>completeSession\<close> and the goroutine's iteration each give up \<^verbatim>\<open>p.mu\<close> before
  they are done: they unlock, call the callback, and only then go on (\<^verbatim>\<open>Start\<close> and
  \<^verbatim>\<open>completeSession\<close> to \<^verbatim>\<open>startTicker\<close>, the iteration to \<^verbatim>\<open>completeSession\<close>). Another
  method of the engine can run in between, called by the control thread or by the
  callback itself. The stretches that run without such an interruption are:
  \<^item> \<open>StartSection\<close>: \<^verbatim>\<open>Start\<close> up to and with its callback (lines 66-83);
  \<^item> \<open>tickSection\<close>: the iteration up to and with the tick callback (lines 171-188); it
    gives the local variables \<^verbatim>\<open>remaining\<close> and \<^verbatim>\<open>shouldContinue\<close>, or nothing when the
    tick was ignored;
  \<^item> \<open>completeSection\<close>: \<^verbatim>\<open>completeSession\<close> up to and with its callback (lines 205-239);
    it gives the local variable \<^verbatim>\<open>autoStart\<close>;
  \<^item> \<^verbatim>\<open>startTicker\<close>, \<^verbatim>\<open>Pause\<close> and \<^verbatim>\<open>Stop\<close> as they are.
\<close>

definition StartSection :: "Pomodoro \<Rightarrow> string option \<times> Pomodoro" where
  "StartSection p =
     (if state p = StateWorking \<or> state p = StateShortBreak \<or> state p = StateLongBreak
      then (Some ''cannot start: timer is already running'', p)
      else
        let p1 = (if state p = StatePaused then p\<lparr>state := StateWorking\<rparr>
                  else p\<lparr>remaining := WorkDuration (config p), state := StateWorking\<rparr>);
            newState = state p1
        in (None, notifyState newState p1))"

definition tickSection :: "Pomodoro \<Rightarrow> (Duration \<times> bool) option \<times> Pomodoro" where
  "tickSection p =
     (if state p \<noteq> StateWorking \<and> state p \<noteq> StateShortBreak \<and> state p \<noteq> StateLongBreak
      then (None, p)
      else
        let p1 = p\<lparr>remaining := wrap64 (remaining p - 100 * Millisecond)\<rparr>;
            remaining' = remaining p1;
            shouldContinue =
              (if remaining' \<le> 0
               then state p1 = StateWorking
                    \<or> (state p1 = StateShortBreak \<and> AutoStartBreak (config p1))
                    \<or> (state p1 = StateLongBreak \<and> AutoStartBreak (config p1))
               else False)
        in (Some (remaining', shouldContinue), notifyTick remaining' p1))"

definition completeSection :: "Pomodoro \<Rightarrow> panic + (bool \<times> Pomodoro)" where
  "completeSection p =
     (let p1 = (case ticker p of None \<Rightarrow> p | Some _ \<Rightarrow> (stopTicker p)\<lparr>ticker := None\<rparr>);
          p2 = closeQuit p1;
          r = (case state p2 of
                 StateWorking \<Rightarrow>
                   let p3 = p2\<lparr>workSessions := wrap64 (workSessions p2 + 1)\<rparr>;
                       p4 = p3\<lparr>cycles := wrap64 (cycles p3 + 1)\<rparr>
                   in if 0 < workSessions p4 \<and> LongBreakInterval (config p4) = 0
                      then Inl DivideByZero
                      else if 0 < workSessions p4
                              \<and> go_rem (workSessions p4) (LongBreakInterval (config p4)) = 0
                      then Inr (p4\<lparr>remaining := LongBreak (config p4), state := StateLongBreak\<rparr>)
                      else Inr (p4\<lparr>remaining := BreakDuration (config p4), state := StateShortBreak\<rparr>)
               | StateShortBreak \<Rightarrow>
                   Inr (p2\<lparr>remaining := WorkDuration (config p2), state := StateWorking\<rparr>)
               | StateLongBreak \<Rightarrow>
                   Inr (p2\<lparr>remaining := WorkDuration (config p2), state := StateWorking\<rparr>)
               | _ \<Rightarrow> Inr p2)
      in case r of
           Inl e \<Rightarrow> Inl e
         | Inr p5 \<Rightarrow>
             let newState = state p5;
                 autoStart = (AutoStartBreak (config p5) \<or> state p5 = StateWorking)
             in Inr (autoStart, notifyState newState p5))"

text \<open>
  The engine with the work that is under way: \<open>completing\<close> counts the iterations that
  have called the tick callback with \<^verbatim>\<open>remaining <= 0\<close> and have not yet entered
  \<^verbatim>\<open>completeSession\<close>; \<open>arming\<close> counts the calls of \<^verbatim>\<open>startTicker\<close> that \<^verbatim>\<open>Start\<close> or
  \<^verbatim>\<open>completeSession\<close> has still to make.
\<close>

record sys =
  engine :: Pomodoro
  completing :: nat
  arming :: nat

definition boot :: "Pomodoro \<Rightarrow> sys" where
  "boot p = \<lparr> engine = p, completing = 0, arming = 0 \<rparr>"

text \<open>
  One step is one critical section. \<open>OpTick\<close> is a tick received by a goroutine; it may
  arrive in any state (a tick buffered before the ticker was stopped is received after
  \<^verbatim>\<open>Pause\<close> or \<^verbatim>\<open>Stop\<close>). \<open>OpComplete\<close> and \<open>OpArm\<close> do nothing when no completion,
  respectively no \<^verbatim>\<open>startTicker\<close>, is due. A failed \<^verbatim>\<open>Start\<close> returns its error and the run
  goes on; a panic ends it.
\<close>

datatype op = OpStart | OpArm Time | OpPause | OpStop | OpTick | OpComplete

fun step :: "op \<Rightarrow> sys \<Rightarrow> panic + sys" where
  "step OpStart w =
     (case StartSection (engine w) of
        (Some e, p) \<Rightarrow> Inr (w\<lparr>engine := p\<rparr>)
      | (None, p) \<Rightarrow> Inr (w\<lparr>engine := p, arming := Suc (arming w)\<rparr>))"
| "step (OpArm now) w =
     (if arming w = 0 then Inr w
      else Inr (w\<lparr>engine := startTicker now (engine w), arming := arming w - 1\<rparr>))"
| "step OpPause w = Inr (w\<lparr>engine := Pause (engine w)\<rparr>)"
| "step OpStop w = Inr (w\<lparr>engine := Stop (engine w)\<rparr>)"
| "step OpTick w =
     (case tickSection (engine w) of
        (None, p) \<Rightarrow> Inr (w\<lparr>engine := p\<rparr>)
      | (Some (remaining', shouldContinue), p) \<Rightarrow>
          Inr (w\<lparr>engine := p,
                 completing := (if remaining' \<le> 0 then Suc (completing w) else completing w)\<rparr>))"
| "step OpComplete w =
     (if completing w = 0 then Inr w
      else case completeSection (engine w) of
             Inl e \<Rightarrow> Inl e
           | Inr (autoStart, p) \<Rightarrow>
               Inr (w\<lparr>engine := p, completing := completing w - 1,
                      arming := (if autoStart then Suc (arming w) else arming w)\<rparr>))"

fun run :: "op list \<Rightarrow> sys \<Rightarrow> panic + sys" where
  "run [] w = Inr w"
| "run (x # xs) w = (case step x w of Inl e \<Rightarrow> Inl e | Inr w' \<Rightarrow> run xs w')"

text \<open>\<^verbatim>\<open>config.Default().Pomodoro\<close>, and the configuration of the spec's end-to-end scenario
  (work of two ticks, short break of one tick, long break every second work session).\<close>

definition Minute :: Duration where
  "Minute = 60 * 1000 * Millisecond"

definition Default :: PomodoroConfig where
  "Default = \<lparr> WorkDuration = 25 * Minute, BreakDuration = 5 * Minute, LongBreak = 15 * Minute,
               LongBreakInterval = 4, AutoStartBreak = True \<rparr>"

definition scenario :: "bool \<Rightarrow> PomodoroConfig" where
  "scenario auto = \<lparr> WorkDuration = 200 * Millisecond, BreakDuration = 100 * Millisecond,
                     LongBreak = 300 * Millisecond, LongBreakInterval = 2,
                     AutoStartBreak = auto \<rparr>"

subsection \<open>The session log\<close>

text \<open>
  \<^verbatim>\<open>models.Session\<close>. The storage file holds one JSON line per saved session; it is
  modelled by the list of sessions that \<^verbatim>\<open>GetAll\<close> decodes from it, oldest first. Failures
  of the file system are not modelled.
\<close>

record Session =
  Task :: string
  StartTime :: Time
  EndTime :: Time

datatype err =
    ErrNoSessions
  | ErrEmptyTask
  | ErrZeroStart
  | ErrPreviousNotFinished string
  | ErrNothingToFinish
  | ErrAlreadyFinished string

text \<open>\<^verbatim>\<open>FileStorage.Save\<close> appends a line to the file.\<close>

definition Save :: "Session \<Rightarrow> Session list \<Rightarrow> err option \<times> Session list" where
  "Save session file =
     (if Task session = [] then (Some ErrEmptyTask, file)
      else if IsZero (StartTime session) then (Some ErrZeroStart, file)
      else (None, file @ [session]))"

definition GetAll :: "Session list \<Rightarrow> Session list" where
  "GetAll file = file"

definition GetLast :: "Session list \<Rightarrow> err + Session" where
  "GetLast file =
     (let sessions = GetAll file
      in if length sessions = 0 then Inl ErrNoSessions else Inr (last sessions))"

text \<open>\<^verbatim>\<open>SessionManager.Start\<close>: the result, and the file afterwards.\<close>

definition SMStart :: "string \<Rightarrow> Time \<Rightarrow> Session list \<Rightarrow> (err + Session) \<times> Session list" where
  "SMStart task now file =
     (if task = [] then (Inl ErrEmptyTask, file)
      else case GetLast file of
        Inr lastSession \<Rightarrow>
          if IsZero (EndTime lastSession)
          then (Inl (ErrPreviousNotFinished (Task lastSession)), file)
          else
            (let session = \<lparr> Task = task, StartTime = now, EndTime = zeroTime \<rparr>
             in case Save session file of
                  (Some e, file') \<Rightarrow> (Inl e, file')
                | (None, file') \<Rightarrow> (Inr session, file'))
      | Inl _ \<Rightarrow>
            (let session = \<lparr> Task = task, StartTime = now, EndTime = zeroTime \<rparr>
             in case Save session file of
                  (Some e, file') \<Rightarrow> (Inl e, file')
                | (None, file') \<Rightarrow> (Inr session, file')))"

text \<open>\<^verbatim>\<open>SessionManager.Finish\<close>: saves a copy of the last session with its end time set.\<close>

definition Finish :: "Time \<Rightarrow> Session list \<Rightarrow> (err + Session) \<times> Session list" where
  "Finish now file =
     (let sessions = GetAll file
      in if length sessions = 0 then (Inl ErrNothingToFinish, file)
         else
           let lastSession = last sessions
           in if \<not> IsZero (EndTime lastSession)
              then (Inl (ErrAlreadyFinished (Task lastSession)), file)
              else
                let lastSession' = lastSession\<lparr>EndTime := now\<rparr>
                in case Save lastSession' file of
                     (Some e, file') \<Rightarrow> (Inl e, file')
                   | (None, file') \<Rightarrow> (Inr lastSession', file'))"

datatype logop = LogStart string Time | LogFinish Time

fun logstep :: "logop \<Rightarrow> Session list \<Rightarrow> Session list" where
  "logstep (LogStart task now) file = snd (SMStart task now file)"
| "logstep (LogFinish now) file = snd (Finish now file)"

fun logrun :: "logop list \<Rightarrow> Session list \<Rightarrow> Session list" where
  "logrun [] file = file"
| "logrun (x # xs) file = logrun xs (logstep x file)"

text \<open>The stored records with a zero end timestamp.\<close>

definition openSessions :: "Session list \<Rightarrow> Session list" where
  "openSessions file = filter (\<lambda>s. IsZero (EndTime s)) file"

text \<open>\<^verbatim>\<open>time.Now()\<close> never returns the zero time.\<close>

fun clockOk :: "logop \<Rightarrow> bool" where
  "clockOk (LogStart task now) = (\<not> IsZero now)"
| "clockOk (LogFinish now) = (\<not> IsZero now)"

text \<open>
  Every record with a zero end timestamp that is not the last one is directly followed by
  its closed copy.
\<close>

fun closedByNext :: "Session list \<Rightarrow> bool" where
  "closedByNext [] = True"
| "closedByNext [s] = True"
| "closedByNext (s # t # rest) =
     ((if IsZero (EndTime s)
       then Task t = Task s \<and> StartTime t = StartTime s \<and> \<not> IsZero (EndTime t)
       else True)
      \<and> closedByNext (t # rest))"

subsection \<open>Analytics\<close>

text \<open>\<^verbatim>\<open>CalculateTotalDuration\<close>: the loop over the sessions, with its accumulator.\<close>

fun totalLoop :: "string \<Rightarrow> Session list \<Rightarrow> Duration \<Rightarrow> Duration" where
  "totalLoop task [] totalDuration = totalDuration"
| "totalLoop task (ssn # ssns) totalDuration =
     (if task = [] \<or> Task ssn = task
      then totalLoop task ssns (wrap64 (totalDuration + Sub (EndTime ssn) (StartTime ssn)))
      else totalLoop task ssns totalDuration)"

definition CalculateTotalDuration :: "Session list \<Rightarrow> string \<Rightarrow> Duration" where
  "CalculateTotalDuration ssns task = totalLoop task ssns 0"

text \<open>\<^verbatim>\<open>CalculateTodayDuration\<close> reads the clock: \<^verbatim>\<open>today := time.Now().Format("2006-01-02")\<close>.\<close>

fun todayLoop :: "int \<Rightarrow> string \<Rightarrow> Session list \<Rightarrow> Duration \<Rightarrow> Duration" where
  "todayLoop today task [] todayDuration = todayDuration"
| "todayLoop today task (ssn # ssns) todayDuration =
     (if dayOf (StartTime ssn) = today \<and> (task = [] \<or> Task ssn = task)
      then todayLoop today task ssns (wrap64 (todayDuration + Sub (EndTime ssn) (StartTime ssn)))
      else todayLoop today task ssns todayDuration)"

definition CalculateTodayDuration :: "Time \<Rightarrow> Session list \<Rightarrow> string \<Rightarrow> Duration" where
  "CalculateTodayDuration now ssns task = (let today = dayOf now in todayLoop today task ssns 0)"

text \<open>
  The functions of package \<^verbatim>\<open>time\<close> that need the calendar and the zone rules of a
  location, and \<^verbatim>\<open>sort.Slice\<close>, are parameters of the model: \<open>'loc\<close> is \<^verbatim>\<open>*time.Location\<close>,
  \<open>Date\<close> is \<^verbatim>\<open>time.Date\<close>, the others are the methods of \<^verbatim>\<open>time.Time\<close> of the same name.
  \<open>Parse d\<close> is what the source keeps of
  \<^verbatim>\<open>time.Parse("2006-01-02", s)\<close> for the string \<open>s\<close> that \<^verbatim>\<open>Format("2006-01-02")\<close> prints on day
  \<open>d\<close> (the error is dropped). A sort takes the \<^verbatim>\<open>less\<close> function on elements and the slice.
\<close>

datatype TaskStats = TaskStats (statsTask: string) (statsDuration: Duration)

record 'loc lib =
  Weekday :: "Time \<Rightarrow> int"
  AddDate :: "int \<Rightarrow> int \<Rightarrow> int \<Rightarrow> Time \<Rightarrow> Time"
  Year :: "Time \<Rightarrow> int"
  Month :: "Time \<Rightarrow> int"
  Day :: "Time \<Rightarrow> int"
  Location :: "Time \<Rightarrow> 'loc"
  Date :: "int \<Rightarrow> int \<Rightarrow> int \<Rightarrow> int \<Rightarrow> int \<Rightarrow> int \<Rightarrow> int \<Rightarrow> 'loc \<Rightarrow> Time"
  Parse :: "int \<Rightarrow> Time"
  sortSessions :: "(Session \<Rightarrow> Session \<Rightarrow> bool) \<Rightarrow> Session list \<Rightarrow> Session list"
  sortStats :: "(TaskStats \<Rightarrow> TaskStats \<Rightarrow> bool) \<Rightarrow> TaskStats list \<Rightarrow> TaskStats list"
  sortTimes :: "(Time \<Rightarrow> Time \<Rightarrow> bool) \<Rightarrow> Time list \<Rightarrow> Time list"

text \<open>
  What a call finds outside its arguments: the wall clock, read by \<^verbatim>\<open>time.Now()\<close>, and the
  order in which \<^verbatim>\<open>range\<close> visits the keys of a map, which Go leaves to the runtime
  (\<open>taskOrder\<close> for the map \<^verbatim>\<open>taskDurations\<close>, \<open>dayOrder\<close> for the map \<^verbatim>\<open>daySet\<close>, whose keys
  are days). \<open>visit\<close> takes the runtime's order when it is an order of exactly the keys.
\<close>

record env =
  clock :: Time
  taskOrder :: "string list \<Rightarrow> string list"
  dayOrder :: "int list \<Rightarrow> int list"

definition visit :: "('k list \<Rightarrow> 'k list) \<Rightarrow> 'k list \<Rightarrow> 'k list" where
  "visit order ks = (if distinct (order ks) \<and> set (order ks) = set ks then order ks else ks)"

text \<open>\<^verbatim>\<open>CalculateConsecutiveDays\<close>: the loop from \<^verbatim>\<open>i := 1\<close>, with \<^verbatim>\<open>currentDate\<close> and
  \<^verbatim>\<open>consecutiveDays\<close>. \<^verbatim>\<open>sort.Slice\<close> permutes the copy, which is not empty.\<close>

fun consecutiveLoop :: "Session list \<Rightarrow> Time \<Rightarrow> int \<Rightarrow> int" where
  "consecutiveLoop [] currentDate consecutiveDays = consecutiveDays"
| "consecutiveLoop (ssn # rest) currentDate consecutiveDays =
     (let sessionDate = Truncate (24 * Hour) (StartTime ssn)
      in if Sub currentDate sessionDate = 24 * Hour
         then consecutiveLoop rest sessionDate (wrap64 (consecutiveDays + 1))
         else if 24 * Hour < Sub currentDate sessionDate
         then consecutiveDays
         else consecutiveLoop rest currentDate consecutiveDays)"

definition CalculateConsecutiveDays :: "'loc lib \<Rightarrow> Session list \<Rightarrow> int" where
  "CalculateConsecutiveDays L ssns =
     (if length ssns = 0 then 0
      else
        let sorted = sortSessions L (\<lambda>a b. After (StartTime a) (StartTime b)) ssns
        in case sorted of
             [] \<Rightarrow> 0
           | first # rest \<Rightarrow>
               consecutiveLoop rest (Truncate (24 * Hour) (StartTime first)) 1)"

text \<open>\<^verbatim>\<open>CalculateWeeklyDuration\<close>, \<^verbatim>\<open>CalculateMonthlyDuration\<close> and \<^verbatim>\<open>CalculateYearlyDuration\<close>
  read the clock and compute the start of its week (the last Sunday), month and year.\<close>

definition startOfWeek :: "'loc lib \<Rightarrow> Time \<Rightarrow> Time" where
  "startOfWeek L now =
     (let startOfWeek = AddDate L 0 0 (- Weekday L now) now
      in Date L (Year L startOfWeek) (Month L startOfWeek) (Day L startOfWeek) 0 0 0 0
           (Location L startOfWeek))"

fun weeklyLoop :: "Time \<Rightarrow> string \<Rightarrow> Session list \<Rightarrow> Duration \<Rightarrow> Duration" where
  "weeklyLoop since task [] weeklyDuration = weeklyDuration"
| "weeklyLoop since task (ssn # ssns) weeklyDuration =
     (if After (StartTime ssn) since \<and> (task = [] \<or> Task ssn = task)
      then weeklyLoop since task ssns
             (wrap64 (weeklyDuration + Sub (EndTime ssn) (StartTime ssn)))
      else weeklyLoop since task ssns weeklyDuration)"

definition CalculateWeeklyDuration ::
    "'loc lib \<Rightarrow> Time \<Rightarrow> Session list \<Rightarrow> string \<Rightarrow> Duration" where
  "CalculateWeeklyDuration L now ssns task = weeklyLoop (startOfWeek L now) task ssns 0"

definition startOfMonth :: "'loc lib \<Rightarrow> Time \<Rightarrow> Time" where
  "startOfMonth L now = Date L (Year L now) (Month L now) 1 0 0 0 0 (Location L now)"

fun monthlyLoop :: "Time \<Rightarrow> string \<Rightarrow> Session list \<Rightarrow> Duration \<Rightarrow> Duration" where
  "monthlyLoop since task [] monthlyDuration = monthlyDuration"
| "monthlyLoop since task (ssn # ssns) monthlyDuration =
     (if After (StartTime ssn) since \<and> (task = [] \<or> Task ssn = task)
      then monthlyLoop since task ssns
             (wrap64 (monthlyDuration + Sub (EndTime ssn) (StartTime ssn)))
      else monthlyLoop since task ssns monthlyDuration)"

definition CalculateMonthlyDuration ::
    "'loc lib \<Rightarrow> Time \<Rightarrow> Session list \<Rightarrow> string \<Rightarrow> Duration" where
  "CalculateMonthlyDuration L now ssns task = monthlyLoop (startOfMonth L now) task ssns 0"

definition startOfYear :: "'loc lib \<Rightarrow> Time \<Rightarrow> Time" where
  "startOfYear L now = Date L (Year L now) 1 1 0 0 0 0 (Location L now)"

fun yearlyLoop :: "Time \<Rightarrow> string \<Rightarrow> Session list \<Rightarrow> Duration \<Rightarrow> Duration" where
  "yearlyLoop since task [] yearlyDuration = yearlyDuration"
| "yearlyLoop since task (ssn # ssns) yearlyDuration =
     (if After (StartTime ssn) since \<and> (task = [] \<or> Task ssn = task)
      then yearlyLoop since task ssns
             (wrap64 (yearlyDuration + Sub (EndTime ssn) (StartTime ssn)))
      else yearlyLoop since task ssns yearlyDuration)"

definition CalculateYearlyDuration ::
    "'loc lib \<Rightarrow> Time \<Rightarrow> Session list \<Rightarrow> string \<Rightarrow> Duration" where
  "CalculateYearlyDuration L now ssns task = yearlyLoop (startOfYear L now) task ssns 0"

text \<open>
  \<^verbatim>\<open>GetTopTasks\<close>. The map \<^verbatim>\<open>taskDurations\<close> is the list of its keys, each with its value, in
  the order of their first insertion; \<open>addTo\<close> is \<^verbatim>\<open>taskDurations[task] += d\<close>, and a key
  that is missing reads as 0.
\<close>

fun addTo :: "string \<Rightarrow> Duration \<Rightarrow> (string \<times> Duration) list \<Rightarrow> (string \<times> Duration) list" where
  "addTo task d [] = [(task, wrap64 (0 + d))]"
| "addTo task d ((k, v) # m) =
     (if k = task then (k, wrap64 (v + d)) # m else (k, v) # addTo task d m)"

fun taskDurationsLoop :: "Session list \<Rightarrow> (string \<times> Duration) list \<Rightarrow> (string \<times> Duration) list" where
  "taskDurationsLoop [] taskDurations = taskDurations"
| "taskDurationsLoop (ssn # ssns) taskDurations =
     (if \<not> IsZero (EndTime ssn)
      then taskDurationsLoop ssns
             (addTo (Task ssn) (Sub (EndTime ssn) (StartTime ssn)) taskDurations)
      else taskDurationsLoop ssns taskDurations)"

definition GetTopTasks :: "'loc lib \<Rightarrow> env \<Rightarrow> Session list \<Rightarrow> int \<Rightarrow> TaskStats list" where
  "GetTopTasks L e ssns limit =
     (let taskDurations = taskDurationsLoop ssns [];
          stats = map (\<lambda>task. TaskStats task
                         (case map_of taskDurations task of Some duration \<Rightarrow> duration | None \<Rightarrow> 0))
                      (visit (taskOrder e) (map fst taskDurations));
          stats' = sortStats L (\<lambda>a b. statsDuration b < statsDuration a) stats
      in if 0 < limit \<and> limit < int (length stats') then take (nat limit) stats' else stats')"

text \<open>
  \<^verbatim>\<open>CalculateLongestStreak\<close>. The keys of \<^verbatim>\<open>daySet\<close> are the days of the sessions' starts,
  each once; the loop from \<^verbatim>\<open>i := 1\<close> carries \<^verbatim>\<open>days[i-1]\<close>, \<^verbatim>\<open>currentStreak\<close> and
  \<^verbatim>\<open>maxStreak\<close>.
\<close>

fun daySetLoop :: "Session list \<Rightarrow> int list \<Rightarrow> int list" where
  "daySetLoop [] daySet = daySet"
| "daySetLoop (ssn # ssns) daySet =
     (let day = dayOf (StartTime ssn)
      in daySetLoop ssns (if day \<in> set daySet then daySet else daySet @ [day]))"

fun streakLoop :: "Time list \<Rightarrow> Time \<Rightarrow> int \<Rightarrow> int \<Rightarrow> int" where
  "streakLoop [] previous currentStreak maxStreak = maxStreak"
| "streakLoop (day # days) previous currentStreak maxStreak =
     (if Sub day previous = 24 * Hour
      then streakLoop days day (wrap64 (currentStreak + 1))
             (if maxStreak < wrap64 (currentStreak + 1) then wrap64 (currentStreak + 1)
              else maxStreak)
      else streakLoop days day 1 maxStreak)"

definition CalculateLongestStreak :: "'loc lib \<Rightarrow> env \<Rightarrow> Session list \<Rightarrow> int" where
  "CalculateLongestStreak L e ssns =
     (if length ssns = 0 then 0
      else
        let daySet = daySetLoop ssns [];
            days = map (Parse L) (visit (dayOrder e) daySet);
            days' = sortTimes L Before days
        in case days' of
             [] \<Rightarrow> 0
           | first # rest \<Rightarrow> streakLoop rest first 1 1)"

text \<open>
  \<^verbatim>\<open>GetProductivityScore\<close> computes in \<^verbatim>\<open>float64\<close>. The type \<open>'f\<close> of these values and the
  operations on them are parameters: \<open>Hours\<close> is \<^verbatim>\<open>Duration.Hours\<close>, \<open>float64\<close> the conversion
  of an \<^verbatim>\<open>int\<close>, \<open>lit n k\<close> the constant written as the decimal \<open>n\<close> with \<open>k\<close> places after the
  point, \<open>fdiv\<close>, \<open>fmul\<close>, \<open>fadd\<close> and \<open>fgt\<close> are \<^verbatim>\<open>/\<close>, \<^verbatim>\<open>*\<close>, \<^verbatim>\<open>+\<close> and \<^verbatim>\<open>>\<close>.
\<close>

record 'f floats =
  Hours :: "Duration \<Rightarrow> 'f"
  float64 :: "int \<Rightarrow> 'f"
  lit :: "int \<Rightarrow> nat \<Rightarrow> 'f"
  fdiv :: "'f \<Rightarrow> 'f \<Rightarrow> 'f"
  fmul :: "'f \<Rightarrow> 'f \<Rightarrow> 'f"
  fadd :: "'f \<Rightarrow> 'f \<Rightarrow> 'f"
  fgt :: "'f \<Rightarrow> 'f \<Rightarrow> bool"

definition GetProductivityScore :: "'f floats \<Rightarrow> 'loc lib \<Rightarrow> env \<Rightarrow> Session list \<Rightarrow> 'f" where
  "GetProductivityScore F L e ssns =
     (if length ssns = 0 then lit F 0 1
      else
        let totalDuration = CalculateTotalDuration ssns [];
            consecutiveDays = CalculateConsecutiveDays L ssns;
            longestStreak = CalculateLongestStreak L e ssns;
            hoursScore = fdiv F (Hours F totalDuration) (lit F 1000 1);
            consistencyScore = fdiv F (float64 F consecutiveDays) (lit F 300 1);
            streakScore = fdiv F (float64 F longestStreak) (lit F 1000 1);
            hoursScore' = (if fgt F hoursScore (lit F 10 1) then lit F 10 1 else hoursScore);
            consistencyScore' =
              (if fgt F consistencyScore (lit F 10 1) then lit F 10 1 else consistencyScore);
            streakScore' = (if fgt F streakScore (lit F 10 1) then lit F 10 1 else streakScore)
        in fmul F
             (fadd F
                (fadd F (fmul F hoursScore' (lit F 4 1)) (fmul F consistencyScore' (lit F 4 1)))
                (fmul F streakScore' (lit F 2 1)))
             (lit F 1000 1))"

text \<open>
  The exported functions of the package as calls, each with its arguments, and what a
  call returns in an environment.
\<close>

datatype call =
    CallTotalDuration "Session list" string
  | CallTodayDuration "Session list" string
  | CallConsecutiveDays "Session list"
  | CallWeeklyDuration "Session list" string
  | CallMonthlyDuration "Session list" string
  | CallYearlyDuration "Session list" string
  | CallTopTasks "Session list" int
  | CallLongestStreak "Session list"
  | CallProductivityScore "Session list"

datatype 'f returned =
    ReturnedDuration Duration
  | ReturnedInt int
  | ReturnedStats "TaskStats list"
  | ReturnedFloat 'f

fun returnOf :: "'f floats \<Rightarrow> 'loc lib \<Rightarrow> env \<Rightarrow> call \<Rightarrow> 'f returned" where
  "returnOf F L e (CallTotalDuration ssns task) = ReturnedDuration (CalculateTotalDuration ssns task)"
| "returnOf F L e (CallTodayDuration ssns task) =
     ReturnedDuration (CalculateTodayDuration (clock e) ssns task)"
| "returnOf F L e (CallConsecutiveDays ssns) = ReturnedInt (CalculateConsecutiveDays L ssns)"
| "returnOf F L e (CallWeeklyDuration ssns task) =
     ReturnedDuration (CalculateWeeklyDuration L (clock e) ssns task)"
| "returnOf F L e (CallMonthlyDuration ssns task) =
     ReturnedDuration (CalculateMonthlyDuration L (clock e) ssns task)"
| "returnOf F L e (CallYearlyDuration ssns task) =
     ReturnedDuration (CalculateYearlyDuration L (clock e) ssns task)"
| "returnOf F L e (CallTopTasks ssns limit) = ReturnedStats (GetTopTasks L e ssns limit)"
| "returnOf F L e (CallLongestStreak ssns) = ReturnedInt (CalculateLongestStreak L e ssns)"
| "returnOf F L e (CallProductivityScore ssns) = ReturnedFloat (GetProductivityScore F L e ssns)"

text \<open>
  Two environments agree for a call when they give it the same reading of what it takes
  from them: the day of the clock, the start of the clock's week, month or year, the
  order of the tasks of the map. The other calls take nothing that can differ.
\<close>

fun agree :: "'loc lib \<Rightarrow> call \<Rightarrow> env \<Rightarrow> env \<Rightarrow> bool" where
  "agree L (CallTodayDuration ssns task) e e' = (dayOf (clock e) = dayOf (clock e'))"
| "agree L (CallWeeklyDuration ssns task) e e' =
     (startOfWeek L (clock e) = startOfWeek L (clock e'))"
| "agree L (CallMonthlyDuration ssns task) e e' =
     (startOfMonth L (clock e) = startOfMonth L (clock e'))"
| "agree L (CallYearlyDuration ssns task) e e' =
     (startOfYear L (clock e) = startOfYear L (clock e'))"
| "agree L (CallTopTasks ssns limit) e e' =
     (visit (taskOrder e) (map fst (taskDurationsLoop ssns []))
        = visit (taskOrder e') (map fst (taskDurationsLoop ssns [])))"
| "agree L (CallTotalDuration ssns task) e e' = True"
| "agree L (CallConsecutiveDays ssns) e e' = True"
| "agree L (CallLongestStreak ssns) e e' = True"
| "agree L (CallProductivityScore ssns) e e' = True"

text \<open>\<^verbatim>\<open>sort.Slice\<close> on times with \<^verbatim>\<open>Before\<close> returns the slice's elements, in order.\<close>

definition sortsTimes :: "'loc lib \<Rightarrow> bool" where
  "sortsTimes L =
     (\<forall>ts. mset (sortTimes L Before ts) = mset ts
            \<and> sorted_wrt (\<lambda>a b. \<not> Before b a) (sortTimes L Before ts))"

subsection \<open>An instance of the parameters\<close>

text \<open>
  The proleptic Gregorian calendar that package \<^verbatim>\<open>time\<close> uses: the year, month and day of
  a day counted from January 1 of year 1, and back. \<open>daysFromCivil\<close> takes months and days
  out of range as \<^verbatim>\<open>time.Date\<close> does (the day 0 of a month is the last day of the month
  before).
\<close>

definition civilFromDays :: "int \<Rightarrow> int \<times> int \<times> int" where
  "civilFromDays d =
     (let z = d + 306;
          era = z div 146097;
          doe = z mod 146097;
          yoe = (doe - doe div 1460 + doe div 36524 - doe div 146096) div 365;
          doy = doe - (365 * yoe + yoe div 4 - yoe div 100);
          mp = (5 * doy + 2) div 153;
          day = doy - (153 * mp + 2) div 5 + 1;
          month = (if mp < 10 then mp + 3 else mp - 9);
          year = yoe + era * 400 + (if month \<le> 2 then 1 else 0)
      in (year, month, day))"

definition daysFromCivil :: "int \<Rightarrow> int \<Rightarrow> int \<Rightarrow> int" where
  "daysFromCivil year month day =
     (let y = year + (month - 1) div 12;
          m = (month - 1) mod 12 + 1;
          y' = (if m \<le> 2 then y - 1 else y);
          era = y' div 400;
          yoe = y' mod 400;
          mp = (m + 9) mod 12;
          doy = (153 * mp + 2) div 5 + day - 1;
          doe = yoe * 365 + yoe div 4 - yoe div 100 + doy
      in era * 146097 + doe - 306)"

text \<open>
  The insertion sort that \<^verbatim>\<open>sort.Slice\<close> runs on a short slice: each element in turn moves
  left past the elements it is \<^verbatim>\<open>less\<close> than. \<open>sink\<close> works on the sorted part in reverse.
\<close>

fun sink :: "('a \<Rightarrow> 'a \<Rightarrow> bool) \<Rightarrow> 'a \<Rightarrow> 'a list \<Rightarrow> 'a list" where
  "sink lessFn x [] = [x]"
| "sink lessFn x (y # ys) = (if lessFn x y then y # sink lessFn x ys else x # y # ys)"

fun insertionLoop :: "('a \<Rightarrow> 'a \<Rightarrow> bool) \<Rightarrow> 'a list \<Rightarrow> 'a list \<Rightarrow> 'a list" where
  "insertionLoop lessFn [] placed = rev placed"
| "insertionLoop lessFn (x # xs) placed = insertionLoop lessFn xs (sink lessFn x placed)"

definition insertionSort :: "('a \<Rightarrow> 'a \<Rightarrow> bool) \<Rightarrow> 'a list \<Rightarrow> 'a list" where
  "insertionSort lessFn xs = insertionLoop lessFn xs []"

text \<open>
  Package \<^verbatim>\<open>time\<close> for locations with one fixed offset (\<^verbatim>\<open>time.UTC\<close>, \<^verbatim>\<open>time.FixedZone\<close>); the
  location is its offset. \<^verbatim>\<open>time.Parse\<close> takes years 0 to 9999 and gives midnight in UTC.
\<close>

definition fixedZones :: "int lib" where
  "fixedZones =
     \<lparr> Weekday = (\<lambda>t. (dayOf t + 1) mod 7),
       AddDate = (\<lambda>years months days t.
          case civilFromDays (dayOf t) of
            (y, m, d) \<Rightarrow>
              \<lparr> nanos = daysFromCivil (y + years) (m + months) (d + days) * (24 * Hour)
                        + (nanos t + utcOffset t) mod (24 * Hour) - utcOffset t,
                utcOffset = utcOffset t \<rparr>),
       Year = (\<lambda>t. fst (civilFromDays (dayOf t))),
       Month = (\<lambda>t. fst (snd (civilFromDays (dayOf t)))),
       Day = (\<lambda>t. snd (snd (civilFromDays (dayOf t)))),
       Location = utcOffset,
       Date = (\<lambda>year month day hour minute sec nsec loc.
          \<lparr> nanos = daysFromCivil year month day * (24 * Hour) + hour * Hour + minute * Minute
                    + sec * (1000 * Millisecond) + nsec - loc,
            utcOffset = loc \<rparr>),
       Parse = (\<lambda>d. if 0 \<le> fst (civilFromDays d) \<and> fst (civilFromDays d) \<le> 9999
                     then \<lparr> nanos = d * (24 * Hour), utcOffset = 0 \<rparr> else zeroTime),
       sortSessions = insertionSort,
       sortStats = insertionSort,
       sortTimes = insertionSort \<rparr>"

text \<open>Arithmetic without rounding, on the rational numbers.\<close>

definition exact :: "rat floats" where
  "exact =
     \<lparr> Hours = (\<lambda>d. of_int d / of_int Hour),
       float64 = of_int,
       lit = (\<lambda>n k. of_int n / 10 ^ k),
       fdiv = (\<lambda>a b. a / b),
       fmul = (\<lambda>a b. a * b),
       fadd = (\<lambda>a b. a + b),
       fgt = (\<lambda>a b. b < a) \<rparr>"

text \<open>A time in UTC, given by its date and hour.\<close>

definition utcAt :: "int \<Rightarrow> int \<Rightarrow> int \<Rightarrow> int \<Rightarrow> Time" where
  "utcAt year month day hour =
     \<lparr> nanos = daysFromCivil year month day * (24 * Hour) + hour * Hour, utcOffset = 0 \<rparr>"

subsection \<open>Example states\<close>

text \<open>An engine right after its first \<^verbatim>\<open>Start()\<close>.\<close>

definition started :: "PomodoroConfig \<Rightarrow> Pomodoro" where
  "started cfg = snd (Start (utc 1) (New cfg))"

text \<open>The sections of \<^verbatim>\<open>Start()\<close> and of the two ticks of the scenario's work phase, each
  method finishing before the next begins.\<close>

definition firstWorkPhase :: "op list" where
  "firstWorkPhase = [OpStart, OpArm (utc 1), OpTick, OpTick, OpComplete, OpArm (utc 3)]"

text \<open>The scenario engine after them, with \<^verbatim>\<open>AutoStartBreak\<close> set and not set.\<close>

definition inShortBreak :: Pomodoro where
  "inShortBreak =
     \<lparr> config = scenario True, state = StateShortBreak, remaining = 100 * Millisecond,
       cycles = 1, workSessions = 1, ticker = Some TickerRunning, tickerQuit = Some ChanOpen,
       lastTick = utc 3, onStateChange = True, onTick = True,
       calls = [StateChange StateWorking, Tick (100 * Millisecond), Tick 0,
                StateChange StateShortBreak] \<rparr>"

definition parkedBreak :: Pomodoro where
  "parkedBreak =
     \<lparr> config = scenario False, state = StateShortBreak, remaining = 100 * Millisecond,
       cycles = 1, workSessions = 1, ticker = None, tickerQuit = None,
       lastTick = utc 1, onStateChange = True, onTick = True,
       calls = [StateChange StateWorking, Tick (100 * Millisecond), Tick 0,
                StateChange StateShortBreak] \<rparr>"

text \<open>A work phase of 250 ms, which is not a multiple of the tick of 100 ms.\<close>

definition quarterSecond :: PomodoroConfig where
  "quarterSecond = \<lparr> WorkDuration = 250 * Millisecond, BreakDuration = 100 * Millisecond,
                     LongBreak = 300 * Millisecond, LongBreakInterval = 2,
                     AutoStartBreak = True \<rparr>"

text \<open>\<^verbatim>\<open>Start()\<close> and three ticks; \<^verbatim>\<open>Pause()\<close>, respectively \<^verbatim>\<open>Stop()\<close>, runs after the callback
  of the third tick and before its \<^verbatim>\<open>completeSession\<close>.\<close>

definition pauseInTick :: "op list" where
  "pauseInTick =
     [OpStart, OpArm (utc 1), OpTick, OpTick, OpTick, OpPause, OpComplete, OpArm (utc 2)]"

definition stopInTick :: "op list" where
  "stopInTick =
     [OpStart, OpArm (utc 1), OpTick, OpTick, OpTick, OpStop, OpComplete, OpArm (utc 2)]"

text \<open>Two sessions of one hour, on Monday and Tuesday, January 2 and 3, 2023.\<close>

definition monday :: Session where
  "monday = \<lparr> Task = ''a'', StartTime = utcAt 2023 1 2 9, EndTime = utcAt 2023 1 2 10 \<rparr>"

definition tuesday :: Session where
  "tuesday = \<lparr> Task = ''b'', StartTime = utcAt 2023 1 3 9, EndTime = utcAt 2023 1 3 10 \<rparr>"

text \<open>An environment whose clock shows \<open>now\<close> and whose maps are visited in the order of
  insertion, respectively in the reverse order.\<close>

definition envAt :: "Time \<Rightarrow> env" where
  "envAt now = \<lparr> clock = now, taskOrder = (\<lambda>ks. ks), dayOrder = (\<lambda>ks. ks) \<rparr>"

definition envReversed :: "Time \<Rightarrow> env" where
  "envReversed now = \<lparr> clock = now, taskOrder = rev, dayOrder = rev \<rparr>"

section \<open>Properties\<close>

subsection \<open>Arithmetic\<close>

lemma wrap64_id: "int64 x \<Longrightarrow> wrap64 x = x"
  by (simp add: wrap64_def int64_def)

lemma go_rem_eq_0_iff: "(go_rem a b = 0) = (a = 0 \<or> b dvd a)"
  by (auto simp: go_rem_def sgn_if mod_eq_0_iff_dvd)

subsection \<open>The operations as record updates\<close>

lemma stopTicker_eq:
  "stopTicker p = p\<lparr>ticker := map_option (\<lambda>_. TickerStopped) (ticker p)\<rparr>"
  by (cases p) (simp add: stopTicker_def split: option.splits)

lemma closeQuit_eq: "closeQuit p = p\<lparr>tickerQuit := None\<rparr>"
  by (cases p) (simp add: closeQuit_def split: option.splits)

lemma dropTicker_eq:
  "(case ticker p of None \<Rightarrow> p | Some x \<Rightarrow> (stopTicker p)\<lparr>ticker := None\<rparr>) = p\<lparr>ticker := None\<rparr>"
  by (cases p) (simp add: stopTicker_def split: option.splits)

lemma startTicker_eq:
  "startTicker now p =
     p\<lparr>ticker := Some TickerRunning, tickerQuit := Some ChanOpen, lastTick := now\<rparr>"
  by (simp add: startTicker_def stopTicker_eq closeQuit_eq)

lemma notifyState_eq:
  "notifyState s p = p\<lparr>calls := calls p @ (if onStateChange p then [StateChange s] else [])\<rparr>"
  by (cases p) (simp add: notifyState_def)

lemma notifyTick_eq:
  "notifyTick r p = p\<lparr>calls := calls p @ (if onTick p then [Tick r] else [])\<rparr>"
  by (cases p) (simp add: notifyTick_def)

lemmas norm =
  stopTicker_eq closeQuit_eq dropTicker_eq startTicker_eq notifyState_eq notifyTick_eq

lemma Start_eq:
  "Start now p =
     (if active (state p) then (Some ''cannot start: timer is already running'', p)
      else (None,
            p\<lparr>remaining := (if state p = StatePaused then remaining p else WorkDuration (config p)),
              state := StateWorking,
              calls := calls p @ (if onStateChange p then [StateChange StateWorking] else []),
              ticker := Some TickerRunning, tickerQuit := Some ChanOpen, lastTick := now\<rparr>))"
  by (simp add: Start_def active_def norm Let_def)

lemma Pause_eq:
  "Pause p =
     (if active (state p)
      then p\<lparr>ticker := map_option (\<lambda>_. TickerStopped) (ticker p), state := StatePaused,
             calls := calls p @ (if onStateChange p then [StateChange StatePaused] else [])\<rparr>
      else p)"
  by (simp add: Pause_def active_def norm Let_def)

lemma Stop_eq:
  "Stop p = p\<lparr>ticker := None, tickerQuit := None, state := StateIdle, cycles := 0,
              workSessions := 0, lastTick := zeroTime,
              calls := calls p @ (if onStateChange p then [StateChange StateIdle] else [])\<rparr>"
  by (simp add: Stop_def norm Let_def)

lemma completeSession_Working_eq:
  assumes "state p = StateWorking"
  shows "completeSession now p =
     (if 0 < wrap64 (workSessions p + 1) \<and> LongBreakInterval (config p) = 0 then Inl DivideByZero
      else Inr (p\<lparr>ticker := (if AutoStartBreak (config p) then Some TickerRunning else None),
                 tickerQuit := (if AutoStartBreak (config p) then Some ChanOpen else None),
                 lastTick := (if AutoStartBreak (config p) then now else lastTick p),
                 workSessions := wrap64 (workSessions p + 1), cycles := wrap64 (cycles p + 1),
                 remaining :=
                   (if 0 < wrap64 (workSessions p + 1)
                       \<and> go_rem (wrap64 (workSessions p + 1)) (LongBreakInterval (config p)) = 0
                    then LongBreak (config p) else BreakDuration (config p)),
                 state :=
                   (if 0 < wrap64 (workSessions p + 1)
                       \<and> go_rem (wrap64 (workSessions p + 1)) (LongBreakInterval (config p)) = 0
                    then StateLongBreak else StateShortBreak),
                 calls := calls p @
                   (if onStateChange p
                    then [StateChange
                            (if 0 < wrap64 (workSessions p + 1)
                                \<and> go_rem (wrap64 (workSessions p + 1))
                                     (LongBreakInterval (config p)) = 0
                             then StateLongBreak else StateShortBreak)]
                    else [])\<rparr>))"
  using assms by (simp add: completeSession_def norm Let_def)

lemma completeSession_break_eq:
  assumes "state p = StateShortBreak \<or> state p = StateLongBreak"
  shows "completeSession now p =
     Inr (p\<lparr>ticker := Some TickerRunning, tickerQuit := Some ChanOpen, lastTick := now,
            remaining := WorkDuration (config p), state := StateWorking,
            calls := calls p @ (if onStateChange p then [StateChange StateWorking] else [])\<rparr>)"
  using assms by (auto simp add: completeSession_def norm Let_def)

lemma completeSession_inactive_eq:
  assumes "state p = StateIdle \<or> state p = StatePaused"
  shows "completeSession now p =
     Inr (p\<lparr>ticker := (if AutoStartBreak (config p) then Some TickerRunning else None),
            tickerQuit := (if AutoStartBreak (config p) then Some ChanOpen else None),
            lastTick := (if AutoStartBreak (config p) then now else lastTick p),
            calls := calls p @ (if onStateChange p then [StateChange (state p)] else [])\<rparr>)"
  using assms by (auto simp add: completeSession_def norm Let_def)

lemma completeSession_returns:
  assumes "LongBreakInterval (config p) \<noteq> 0"
  shows "\<exists>p'. completeSession now p = Inr p'"
  using assms
  by (cases "state p")
     (simp_all add: completeSession_Working_eq completeSession_break_eq
        completeSession_inactive_eq)

lemma onTickerC_inactive: "\<not> active (state p) \<Longrightarrow> onTickerC now p = Inr (LoopContinue, p)"
  by (simp add: onTickerC_def active_def)

lemma onTickerC_running:
  assumes "active (state p)" "0 < wrap64 (remaining p - 100 * Millisecond)"
  shows "onTickerC now p =
     Inr (LoopContinue,
          p\<lparr>remaining := wrap64 (remaining p - 100 * Millisecond),
            calls := calls p @
              (if onTick p then [Tick (wrap64 (remaining p - 100 * Millisecond))] else [])\<rparr>)"
  using assms by (auto simp add: onTickerC_def active_def norm Let_def)

lemma onTickerC_completes:
  assumes "active (state p)" "wrap64 (remaining p - 100 * Millisecond) \<le> 0"
  shows "onTickerC now p =
     (case completeSession now
             (p\<lparr>remaining := wrap64 (remaining p - 100 * Millisecond),
                calls := calls p @
                  (if onTick p then [Tick (wrap64 (remaining p - 100 * Millisecond))] else [])\<rparr>) of
        Inl e \<Rightarrow> Inl e
      | Inr p' \<Rightarrow>
          Inr (if state p = StateWorking \<or> AutoStartBreak (config p)
               then LoopContinue else LoopReturn, p'))"
  using assms by (auto simp add: onTickerC_def active_def norm Let_def split: sum.splits)

subsection \<open>The critical sections as record updates\<close>

lemma StartSection_eq:
  "StartSection p =
     (if active (state p) then (Some ''cannot start: timer is already running'', p)
      else (None,
            p\<lparr>remaining := (if state p = StatePaused then remaining p else WorkDuration (config p)),
              state := StateWorking,
              calls := calls p @ (if onStateChange p then [StateChange StateWorking] else [])\<rparr>))"
  by (simp add: StartSection_def active_def norm Let_def)

lemma tickSection_eq:
  "tickSection p =
     (if active (state p)
      then (Some (wrap64 (remaining p - 100 * Millisecond),
                  wrap64 (remaining p - 100 * Millisecond) \<le> 0
                  \<and> (state p = StateWorking \<or> AutoStartBreak (config p))),
            p\<lparr>remaining := wrap64 (remaining p - 100 * Millisecond),
              calls := calls p @
                (if onTick p then [Tick (wrap64 (remaining p - 100 * Millisecond))] else [])\<rparr>)
      else (None, p))"
  by (auto simp add: tickSection_def active_def norm Let_def)

lemma completeSection_Working_eq:
  assumes "state p = StateWorking"
  shows "completeSection p =
     (if 0 < wrap64 (workSessions p + 1) \<and> LongBreakInterval (config p) = 0 then Inl DivideByZero
      else Inr (AutoStartBreak (config p),
                p\<lparr>ticker := None, tickerQuit := None,
                  workSessions := wrap64 (workSessions p + 1), cycles := wrap64 (cycles p + 1),
                  remaining :=
                    (if 0 < wrap64 (workSessions p + 1)
                        \<and> go_rem (wrap64 (workSessions p + 1)) (LongBreakInterval (config p)) = 0
                     then LongBreak (config p) else BreakDuration (config p)),
                  state :=
                    (if 0 < wrap64 (workSessions p + 1)
                        \<and> go_rem (wrap64 (workSessions p + 1)) (LongBreakInterval (config p)) = 0
                     then StateLongBreak else StateShortBreak),
                  calls := calls p @
                    (if onStateChange p
                     then [StateChange
                             (if 0 < wrap64 (workSessions p + 1)
                                 \<and> go_rem (wrap64 (workSessions p + 1))
                                      (LongBreakInterval (config p)) = 0
                              then StateLongBreak else StateShortBreak)]
                     else [])\<rparr>))"
  using assms by (simp add: completeSection_def norm Let_def)

lemma completeSection_break_eq:
  assumes "state p = StateShortBreak \<or> state p = StateLongBreak"
  shows "completeSection p =
     Inr (True,
          p\<lparr>ticker := None, tickerQuit := None,
            remaining := WorkDuration (config p), state := StateWorking,
            calls := calls p @ (if onStateChange p then [StateChange StateWorking] else [])\<rparr>)"
  using assms by (auto simp add: completeSection_def norm Let_def)

lemma completeSection_inactive_eq:
  assumes "state p = StateIdle \<or> state p = StatePaused"
  shows "completeSection p =
     Inr (AutoStartBreak (config p),
          p\<lparr>ticker := None, tickerQuit := None,
            calls := calls p @ (if onStateChange p then [StateChange (state p)] else [])\<rparr>)"
  using assms by (auto simp add: completeSection_def norm Let_def)

text \<open>The methods are their sections, run one after the other.\<close>

lemma Start_sections:
  "Start now p =
     (case StartSection p of
        (Some e, p') \<Rightarrow> (Some e, p')
      | (None, p') \<Rightarrow> (None, startTicker now p'))"
  by (simp add: Start_def StartSection_def Let_def)

lemma completeSession_sections:
  "completeSession now p =
     (case completeSection p of
        Inl e \<Rightarrow> Inl e
      | Inr (autoStart, p') \<Rightarrow> Inr (if autoStart then startTicker now p' else p'))"
  by (simp add: completeSession_def completeSection_def Let_def split: sum.splits State.splits)

lemma onTickerC_sections:
  "onTickerC now p =
     (case tickSection p of
        (None, p') \<Rightarrow> Inr (LoopContinue, p')
      | (Some (remaining', shouldContinue), p') \<Rightarrow>
          if remaining' \<le> 0
          then (case completeSession now p' of
                  Inl e \<Rightarrow> Inl e
                | Inr p'' \<Rightarrow> Inr (if \<not> shouldContinue then LoopReturn else LoopContinue, p''))
          else Inr (LoopContinue, p'))"
  by (auto simp add: onTickerC_def tickSection_def Let_def)

lemma run_Start:
  "run [OpStart, OpArm now] (boot p) = Inr (boot (snd (Start now p)))"
  by (simp add: Start_sections boot_def split: prod.splits option.splits)

lemma run_onTickerC:
  "run [OpTick, OpComplete, OpArm now] (boot p) =
     (case onTickerC now p of Inl e \<Rightarrow> Inl e | Inr (l, p') \<Rightarrow> Inr (boot p'))"
  by (simp add: onTickerC_sections completeSession_sections boot_def
           split: prod.splits option.splits sum.splits)

lemmas example_defs =
  started_def inShortBreak_def parkedBreak_def quarterSecond_def firstWorkPhase_def
  pauseInTick_def stopInTick_def boot_def scenario_def Default_def New_def utc_def zeroTime_def
  Minute_def Hour_def Millisecond_def active_def ticking_def wrap64_def go_rem_def int64_def
  StateOf_def Remaining_def Cycles_def

subsection \<open>Pause and resume\<close>

text \<open>
  C1 (amended). For every engine state whose phase is Working, ShortBreak or LongBreak,
  \<^verbatim>\<open>Pause()\<close> followed by \<^verbatim>\<open>Start()\<close> with no tick in between succeeds and leaves the remaining
  time exactly as it was before the pause, and the counters as they were; the phase after
  the resume is Working whatever phase was suspended, and a fresh ticker is armed.
\<close>

theorem Pause_Start_resumes_Working:
  assumes "state p = StateWorking \<or> state p = StateShortBreak \<or> state p = StateLongBreak"
  shows "StateOf (Pause p) = StatePaused
         \<and> Remaining (Pause p) = Remaining p
         \<and> fst (Start now (Pause p)) = None
         \<and> StateOf (snd (Start now (Pause p))) = StateWorking
         \<and> Remaining (snd (Start now (Pause p))) = Remaining p
         \<and> Cycles (snd (Start now (Pause p))) = Cycles p
         \<and> workSessions (snd (Start now (Pause p))) = workSessions p
         \<and> ticking (snd (Start now (Pause p)))"
  using assms
  by (auto simp: Start_eq Pause_eq active_def ticking_def StateOf_def Remaining_def Cycles_def)

text \<open>The theorem at an engine paused in its first work phase.\<close>

theorem Pause_Start_resumes_Working_witness:
  "state (started Default) = StateWorking
   \<and> StateOf (Pause (started Default)) = StatePaused
   \<and> fst (Start (utc 2) (Pause (started Default))) = None
   \<and> StateOf (snd (Start (utc 2) (Pause (started Default)))) = StateWorking
   \<and> Remaining (snd (Start (utc 2) (Pause (started Default)))) = 25 * Minute
   \<and> Remaining (started Default) = 25 * Minute"
  using Pause_Start_resumes_Working [of "started Default" "utc 2"]
  by (simp add: Start_eq example_defs)

text \<open>
  The claim as stated fails for a paused break: the scenario engine reaches its short
  break after two ticks; paused there and started again, it is in phase Working, not in
  the phase that was suspended.
\<close>

theorem resume_same_phase_counterexample:
  "run firstWorkPhase (boot (New (scenario True))) = Inr (boot inShortBreak)
   \<and> StateOf inShortBreak = StateShortBreak
   \<and> StateOf (Pause inShortBreak) = StatePaused
   \<and> fst (Start (utc 4) (Pause inShortBreak)) = None
   \<and> StateOf (snd (Start (utc 4) (Pause inShortBreak))) = StateWorking
   \<and> StateOf (snd (Start (utc 4) (Pause inShortBreak))) \<noteq> StateOf inShortBreak"
  by (simp add: Start_eq Pause_eq StartSection_eq tickSection_eq startTicker_eq
        completeSection_Working_eq example_defs)

subsection \<open>Completion of a work phase\<close>

text \<open>
  C2. A phase completion in phase Working increments the completed-cycle and the
  completed-work-session counter by one each; then, if the work-session count is a nonzero
  multiple of the configured long-break interval, the engine is in LongBreak with the
  long-break duration remaining, and otherwise in ShortBreak with the short-break
  duration remaining. The interval is not zero (the configuration's invariant), and the
  counters are counts below the greatest \<^verbatim>\<open>int\<close>.
\<close>

theorem completeSession_from_Working:
  assumes "state p = StateWorking"
    and "LongBreakInterval (config p) \<noteq> 0"
    and "0 \<le> workSessions p" and "workSessions p + 1 < 2 ^ 63"
    and "int64 (cycles p + 1)"
  shows "\<exists>p'. completeSession now p = Inr p'
           \<and> Cycles p' = Cycles p + 1
           \<and> workSessions p' = workSessions p + 1
           \<and> (if workSessions p' \<noteq> 0 \<and> LongBreakInterval (config p) dvd workSessions p'
               then StateOf p' = StateLongBreak \<and> Remaining p' = LongBreak (config p)
               else StateOf p' = StateShortBreak \<and> Remaining p' = BreakDuration (config p))"
proof -
  have w: "wrap64 (workSessions p + 1) = workSessions p + 1"
    using assms(3,4) by (intro wrap64_id) (simp add: int64_def)
  have c: "wrap64 (cycles p + 1) = cycles p + 1"
    using assms(5) by (rule wrap64_id)
  show ?thesis
    using assms(2,3) w c
    by (simp add: completeSession_Working_eq [OF assms(1)] go_rem_eq_0_iff
          StateOf_def Remaining_def Cycles_def)
qed

text \<open>The theorem at the first and at the second work phase of the scenario engine: a
  short break after one work session, a long break after two.\<close>

theorem completeSession_from_Working_witness:
  "state (started (scenario True)) = StateWorking
   \<and> LongBreakInterval (config (started (scenario True))) \<noteq> 0
   \<and> 0 \<le> workSessions (started (scenario True))
   \<and> workSessions (started (scenario True)) + 1 < 2 ^ 63
   \<and> int64 (cycles (started (scenario True)) + 1)
   \<and> StateOf (projr (completeSession (utc 2) (started (scenario True)))) = StateShortBreak
   \<and> Remaining (projr (completeSession (utc 2) (started (scenario True)))) = 100 * Millisecond
   \<and> Cycles (projr (completeSession (utc 2) (started (scenario True)))) = 1
   \<and> StateOf (projr (completeSession (utc 2)
        ((started (scenario True))\<lparr>cycles := 1, workSessions := 1\<rparr>))) = StateLongBreak
   \<and> Remaining (projr (completeSession (utc 2)
        ((started (scenario True))\<lparr>cycles := 1, workSessions := 1\<rparr>))) = 300 * Millisecond
   \<and> Cycles (projr (completeSession (utc 2)
        ((started (scenario True))\<lparr>cycles := 1, workSessions := 1\<rparr>))) = 2"
  using completeSession_from_Working [of "started (scenario True)" "utc 2"]
    completeSession_from_Working
      [of "(started (scenario True))\<lparr>cycles := 1, workSessions := 1\<rparr>" "utc 2"]
  by (simp add: Start_eq completeSession_Working_eq example_defs)

subsection \<open>Start on a running timer\<close>

text \<open>
  C3. In every engine state whose phase is Working, ShortBreak or LongBreak, \<^verbatim>\<open>Start()\<close>
  returns the error "cannot start: timer is already running", which is not nil (and is
  not the value \<^verbatim>\<open>ErrAlreadyRunning\<close>), and leaves the whole struct as it was: phase,
  remaining time and both counters are unchanged, and no callback is invoked.
\<close>

theorem Start_already_running:
  assumes "state p = StateWorking \<or> state p = StateShortBreak \<or> state p = StateLongBreak"
  shows "fst (Start now p) = Some ''cannot start: timer is already running''
         \<and> fst (Start now p) \<noteq> None
         \<and> fst (Start now p) \<noteq> Some ErrAlreadyRunning
         \<and> snd (Start now p) = p
         \<and> StateOf (snd (Start now p)) = StateOf p
         \<and> Remaining (snd (Start now p)) = Remaining p
         \<and> Cycles (snd (Start now p)) = Cycles p
         \<and> workSessions (snd (Start now p)) = workSessions p
         \<and> calls (snd (Start now p)) = calls p"
  using assms by (auto simp: Start_def ErrAlreadyRunning_def)

text \<open>The theorem at a second \<^verbatim>\<open>Start()\<close> of a started engine, and at the scenario engine in
  its short break.\<close>

theorem Start_already_running_witness:
  "state (started Default) = StateWorking
   \<and> fst (Start (utc 2) (started Default)) = Some ''cannot start: timer is already running''
   \<and> snd (Start (utc 2) (started Default)) = started Default
   \<and> state inShortBreak = StateShortBreak
   \<and> fst (Start (utc 4) inShortBreak) = Some ''cannot start: timer is already running''
   \<and> snd (Start (utc 4) inShortBreak) = inShortBreak"
  using Start_already_running [of "started Default" "utc 2"]
    Start_already_running [of inShortBreak "utc 4"]
  by (simp add: Start_eq example_defs)

subsection \<open>Continuation after a phase completion\<close>

text \<open>
  After the completion of an active phase a ticker is running exactly when the new phase
  is Working, or is a break and \<^verbatim>\<open>AutoStartBreak\<close> is set; otherwise no ticker and no
  goroutine are left and the engine is in the new break with the configured duration of
  that break remaining.
\<close>

lemma completeSession_arms:
  assumes "active (state p)" and "completeSession now p = Inr p'"
  shows "ticking p' \<longleftrightarrow>
           StateOf p' = StateWorking
           \<or> ((StateOf p' = StateShortBreak \<or> StateOf p' = StateLongBreak)
               \<and> AutoStartBreak (config p'))"
    and "\<not> ticking p' \<Longrightarrow>
           ticker p' = None \<and> tickerQuit p' = None
           \<and> (StateOf p' = StateShortBreak \<and> Remaining p' = BreakDuration (config p')
              \<or> StateOf p' = StateLongBreak \<and> Remaining p' = LongBreak (config p'))"
  using assms
  by (auto simp: active_def completeSession_Working_eq completeSession_break_eq ticking_def
           StateOf_def Remaining_def split: if_splits)

text \<open>
  C4. The claim says that the engine, parked in a break because \<^verbatim>\<open>AutoStartBreak\<close> is not
  set, stays parked until an explicit \<^verbatim>\<open>Start()\<close>. In the code the explicit \<^verbatim>\<open>Start()\<close> does
  not end the parking. The scenario engine without \<^verbatim>\<open>AutoStartBreak\<close> is parked in its
  short break by the second tick of its work phase: the completion stops the ticker and
  closes the quit channel, neither is left in the struct, and the break's duration
  remains. \<^verbatim>\<open>Start()\<close> called there
  returns the error "cannot start: timer is already running" and leaves the struct as it
  is, without a ticker. With \<^verbatim>\<open>AutoStartBreak\<close> set, the same run leaves a running ticker.
\<close>

theorem Start_refused_in_parked_break:
  "run firstWorkPhase (boot (New (scenario False))) = Inr (boot parkedBreak)
   \<and> onTickerC (utc 3) (snd (tickSection (started (scenario False))))
       = Inr (LoopContinue, parkedBreak)
   \<and> StateOf parkedBreak = StateShortBreak
   \<and> Remaining parkedBreak = BreakDuration (config parkedBreak)
   \<and> ticker parkedBreak = None \<and> tickerQuit parkedBreak = None
   \<and> ticking parkedBreak = False
   \<and> Start (utc 4) parkedBreak
       = (Some ''cannot start: timer is already running'', parkedBreak)
   \<and> run [OpStart, OpArm (utc 4)] (boot parkedBreak) = Inr (boot parkedBreak)
   \<and> ticking (snd (Start (utc 4) parkedBreak)) = False
   \<and> run firstWorkPhase (boot (New (scenario True))) = Inr (boot inShortBreak)
   \<and> ticking inShortBreak"
  by (simp add: Start_eq StartSection_eq tickSection_eq startTicker_eq onTickerC_completes
        completeSession_Working_eq completeSection_Working_eq example_defs)

subsection \<open>One tick\<close>

text \<open>
  C5. A tick received while the phase is Working, ShortBreak or LongBreak decrements the
  remaining time by exactly 100 ms and then invokes the tick callback with the new
  remaining value, also on the terminal tick, where the phase completion runs after the
  callback; a tick received while the phase is Idle or Paused leaves the struct unchanged
  and invokes no callback. The decrement does not leave the range of \<^verbatim>\<open>int64\<close>, and a tick
  callback is registered.
\<close>

theorem onTickerC_tick:
  assumes "int64 (remaining p - 100 * Millisecond)" and "onTick p"
  shows "(\<not> active (state p) \<longrightarrow> onTickerC now p = Inr (LoopContinue, p))
       \<and> (active (state p) \<and> 0 < remaining p - 100 * Millisecond \<longrightarrow>
            onTickerC now p =
              Inr (LoopContinue,
                   p\<lparr>remaining := remaining p - 100 * Millisecond,
                     calls := calls p @ [Tick (remaining p - 100 * Millisecond)]\<rparr>))
       \<and> (active (state p) \<and> remaining p - 100 * Millisecond \<le> 0 \<longrightarrow>
            (\<forall>l p'. onTickerC now p = Inr (l, p') \<longrightarrow>
               completeSession now
                  (p\<lparr>remaining := remaining p - 100 * Millisecond,
                     calls := calls p @ [Tick (remaining p - 100 * Millisecond)]\<rparr>) = Inr p'
               \<and> (\<exists>rest. calls p' = calls p @ [Tick (remaining p - 100 * Millisecond)] @ rest))
          \<and> (LongBreakInterval (config p) \<noteq> 0 \<longrightarrow> (\<exists>l p'. onTickerC now p = Inr (l, p'))))"
proof -
  let ?r = "remaining p - 100 * Millisecond"
  let ?q = "p\<lparr>remaining := ?r, calls := calls p @ [Tick ?r]\<rparr>"
  have w: "wrap64 ?r = ?r" using assms(1) by (rule wrap64_id)
  have a: "\<not> active (state p) \<longrightarrow> onTickerC now p = Inr (LoopContinue, p)"
    by (simp add: onTickerC_inactive)
  have b: "active (state p) \<and> 0 < ?r \<longrightarrow> onTickerC now p = Inr (LoopContinue, ?q)"
    using onTickerC_running [of p now] w assms(2) by simp
  have eq: "active (state p) \<and> ?r \<le> 0 \<Longrightarrow> onTickerC now p =
      (case completeSession now ?q of Inl e \<Rightarrow> Inl e
       | Inr p' \<Rightarrow> Inr (if state p = StateWorking \<or> AutoStartBreak (config p)
                         then LoopContinue else LoopReturn, p'))"
    using onTickerC_completes [of p now] w assms(2) by simp
  have calls_grow: "\<exists>rest. calls p' = calls ?q @ rest"
    if "active (state p)" "completeSession now ?q = Inr p'" for p'
    using that
    by (auto simp: active_def completeSession_Working_eq completeSession_break_eq
             split: if_splits)
  have c: "active (state p) \<and> ?r \<le> 0 \<longrightarrow>
            (\<forall>l p'. onTickerC now p = Inr (l, p') \<longrightarrow>
               completeSession now ?q = Inr p'
               \<and> (\<exists>rest. calls p' = calls p @ [Tick ?r] @ rest))
          \<and> (LongBreakInterval (config p) \<noteq> 0 \<longrightarrow> (\<exists>l p'. onTickerC now p = Inr (l, p')))"
  proof (intro impI conjI allI)
    fix l p' assume h: "active (state p) \<and> ?r \<le> 0" and o: "onTickerC now p = Inr (l, p')"
    from eq [OF h] o show cs: "completeSession now ?q = Inr p'"
      by (auto split: sum.splits)
    from calls_grow [OF _ cs] h show "\<exists>rest. calls p' = calls p @ [Tick ?r] @ rest" by simp
  next
    assume h: "active (state p) \<and> ?r \<le> 0" and n: "LongBreakInterval (config p) \<noteq> 0"
    from n have "\<exists>p'. completeSession now ?q = Inr p'"
      by (intro completeSession_returns) simp
    with eq [OF h] show "\<exists>l p'. onTickerC now p = Inr (l, p')" by auto
  qed
  from a b c show ?thesis by blast
qed

text \<open>The theorem at the two ticks of the scenario's work phase (the second is the
  terminal one) and at a tick that reaches an idle and a paused engine.\<close>

theorem onTickerC_tick_witness:
  "int64 (remaining (started (scenario True)) - 100 * Millisecond)
   \<and> onTick (started (scenario True))
   \<and> active (state (started (scenario True)))
   \<and> onTickerC (utc 2) (started (scenario True))
       = Inr (LoopContinue,
              (started (scenario True))\<lparr>remaining := 100 * Millisecond,
                 calls := [StateChange StateWorking, Tick (100 * Millisecond)]\<rparr>)
   \<and> onTickerC (utc 3)
        ((started (scenario True))\<lparr>remaining := 100 * Millisecond,
           calls := [StateChange StateWorking, Tick (100 * Millisecond)]\<rparr>)
       = Inr (LoopContinue, inShortBreak)
   \<and> calls inShortBreak
       = [StateChange StateWorking, Tick (100 * Millisecond)] @ [Tick 0]
           @ [StateChange StateShortBreak]
   \<and> \<not> active (state (New (scenario True)))
   \<and> onTickerC (utc 2) (New (scenario True)) = Inr (LoopContinue, New (scenario True))
   \<and> \<not> active (state (Pause (started (scenario True))))
   \<and> onTickerC (utc 2) (Pause (started (scenario True)))
       = Inr (LoopContinue, Pause (started (scenario True)))"
  using onTickerC_tick [of "started (scenario True)" "utc 2"]
    onTickerC_tick [of "(started (scenario True))\<lparr>remaining := 100 * Millisecond,
           calls := [StateChange StateWorking, Tick (100 * Millisecond)]\<rparr>" "utc 3"]
    onTickerC_tick [of "New (scenario True)" "utc 2"]
    onTickerC_tick [of "Pause (started (scenario True))" "utc 2"]
  by (simp add: Start_eq Pause_eq onTickerC_inactive onTickerC_running onTickerC_completes
        completeSession_Working_eq example_defs)

subsection \<open>Stop\<close>

text \<open>
  C7. \<^verbatim>\<open>Stop()\<close> is total and idempotent: from any engine state it returns (it has no error
  result and no panic), and afterwards the phase is Idle, both counters are zero, and the
  tracking of the running phase is cleared: no ticker, no quit channel, and the zero
  \<^verbatim>\<open>lastTick\<close>. A second \<^verbatim>\<open>Stop()\<close> in a row leaves every field of the struct as the first
  left it; it only notifies Idle once more. The field \<^verbatim>\<open>remaining\<close> is not written by
  \<^verbatim>\<open>Stop()\<close>.
\<close>

theorem Stop_idempotent:
  "StateOf (Stop p) = StateIdle
   \<and> Cycles (Stop p) = 0
   \<and> workSessions (Stop p) = 0
   \<and> lastTick (Stop p) = zeroTime
   \<and> ticker (Stop p) = None
   \<and> tickerQuit (Stop p) = None
   \<and> Remaining (Stop p) = Remaining p
   \<and> Stop (Stop p) = notifyState StateIdle (Stop p)
   \<and> (Stop (Stop p))\<lparr>calls := calls (Stop p)\<rparr> = Stop p"
  by (simp add: Stop_eq notifyState_eq StateOf_def Cycles_def Remaining_def)

subsection \<open>Remaining time after a phase completion\<close>

text \<open>
  An iteration of the goroutine that nothing interrupts leaves a positive remaining time:
  when the tick brings it to zero or below, the phase completion sets it to the
  duration of the next phase.
\<close>

lemma onTickerC_effect:
  assumes "onTickerC now p = Inr (l, p')"
  shows "config p' = config p
     \<and> (0 < remaining p \<longrightarrow> 0 < WorkDuration (config p) \<longrightarrow> 0 < BreakDuration (config p)
           \<longrightarrow> 0 < LongBreak (config p) \<longrightarrow> 0 < remaining p')"
proof -
  consider (i) "\<not> active (state p)"
    | (r) "active (state p)" "0 < wrap64 (remaining p - 100 * Millisecond)"
    | (c) "active (state p)" "wrap64 (remaining p - 100 * Millisecond) \<le> 0"
    by linarith
  then show ?thesis
  proof cases
    case i
    with assms show ?thesis by (simp add: onTickerC_inactive)
  next
    case r
    with assms show ?thesis by (auto simp: onTickerC_running)
  next
    case c
    with assms show ?thesis
      by (auto simp: onTickerC_completes active_def completeSession_Working_eq
            completeSession_break_eq split: sum.splits if_splits)
  qed
qed

text \<open>
  C6. The claim says that \<^verbatim>\<open>Remaining()\<close> is never negative once a pending phase completion
  has been processed. In the code the iteration unlocks and calls the tick callback
  between its decrement and \<^verbatim>\<open>completeSession\<close>, and the \<^verbatim>\<open>switch\<close> of \<^verbatim>\<open>completeSession\<close> has
  no case for Paused or Idle. With a work phase of 250 ms (all durations positive) the
  third tick leaves -50 ms; \<^verbatim>\<open>Pause()\<close>, respectively \<^verbatim>\<open>Stop()\<close>, called then (by the tick
  callback or by the control thread) makes the pending completion reset nothing: after
  it no completion is pending, the phase is Paused, respectively Idle, and \<^verbatim>\<open>Remaining()\<close>
  returns -50 ms. Without the call in between, the completion sets the short break's
  100 ms.
\<close>

theorem Remaining_negative_after_completion:
  "0 < WorkDuration quarterSecond \<and> 0 < BreakDuration quarterSecond
   \<and> 0 < LongBreak quarterSecond \<and> 0 < LongBreakInterval quarterSecond
   \<and> run pauseInTick (boot (New quarterSecond))
       = Inr (projr (run pauseInTick (boot (New quarterSecond))))
   \<and> completing (projr (run pauseInTick (boot (New quarterSecond)))) = 0
   \<and> arming (projr (run pauseInTick (boot (New quarterSecond)))) = 0
   \<and> StateOf (engine (projr (run pauseInTick (boot (New quarterSecond))))) = StatePaused
   \<and> Remaining (engine (projr (run pauseInTick (boot (New quarterSecond)))))
       = - (50 * Millisecond)
   \<and> Remaining (engine (projr (run pauseInTick (boot (New quarterSecond))))) < 0
   \<and> calls (engine (projr (run pauseInTick (boot (New quarterSecond)))))
       = [StateChange StateWorking, Tick (150 * Millisecond), Tick (50 * Millisecond),
          Tick (- (50 * Millisecond)), StateChange StatePaused, StateChange StatePaused]
   \<and> run stopInTick (boot (New quarterSecond))
       = Inr (projr (run stopInTick (boot (New quarterSecond))))
   \<and> completing (projr (run stopInTick (boot (New quarterSecond)))) = 0
   \<and> arming (projr (run stopInTick (boot (New quarterSecond)))) = 0
   \<and> StateOf (engine (projr (run stopInTick (boot (New quarterSecond))))) = StateIdle
   \<and> Remaining (engine (projr (run stopInTick (boot (New quarterSecond)))))
       = - (50 * Millisecond)
   \<and> Remaining (engine (projr
        (run [OpStart, OpArm (utc 1), OpTick, OpTick, OpTick, OpComplete, OpArm (utc 2)]
           (boot (New quarterSecond))))) = 100 * Millisecond"
  by (simp add: StartSection_eq tickSection_eq startTicker_eq Pause_eq Stop_eq
        completeSection_Working_eq completeSection_inactive_eq example_defs)

subsection \<open>The two counters\<close>

lemma step_effect:
  assumes "step x w = Inr w'"
  shows "config (engine w') = config (engine w)"
    and "cycles (engine w') = cycles (engine w)
           \<and> workSessions (engine w') = workSessions (engine w)
        \<or> x = OpStop \<and> cycles (engine w') = 0 \<and> workSessions (engine w') = 0
        \<or> x = OpComplete \<and> 0 < completing w \<and> state (engine w) = StateWorking
           \<and> cycles (engine w') = wrap64 (cycles (engine w) + 1)
           \<and> workSessions (engine w') = wrap64 (workSessions (engine w) + 1)"
proof -
  have "config (engine w') = config (engine w)
     \<and> (cycles (engine w') = cycles (engine w)
           \<and> workSessions (engine w') = workSessions (engine w)
        \<or> x = OpStop \<and> cycles (engine w') = 0 \<and> workSessions (engine w') = 0
        \<or> x = OpComplete \<and> 0 < completing w \<and> state (engine w) = StateWorking
           \<and> cycles (engine w') = wrap64 (cycles (engine w) + 1)
           \<and> workSessions (engine w') = wrap64 (workSessions (engine w) + 1))"
  proof (cases x)
    case OpStart
    with assms show ?thesis by (auto simp: StartSection_eq split: if_splits)
  next
    case (OpArm now)
    with assms show ?thesis by (auto simp: startTicker_eq split: if_splits)
  next
    case OpPause
    with assms show ?thesis by (auto simp: Pause_eq)
  next
    case OpStop
    with assms show ?thesis by (auto simp: Stop_eq)
  next
    case OpTick
    with assms show ?thesis by (auto simp: tickSection_eq split: if_splits)
  next
    case OpComplete
    show ?thesis
    proof (cases "completing w = 0")
      case True
      with assms OpComplete show ?thesis by simp
    next
      case False
      with assms OpComplete show ?thesis
        by (cases "state (engine w)")
           (auto simp: completeSection_Working_eq completeSection_break_eq
              completeSection_inactive_eq split: if_splits)
    qed
  qed
  then show "config (engine w') = config (engine w)"
    and "cycles (engine w') = cycles (engine w)
           \<and> workSessions (engine w') = workSessions (engine w)
        \<or> x = OpStop \<and> cycles (engine w') = 0 \<and> workSessions (engine w') = 0
        \<or> x = OpComplete \<and> 0 < completing w \<and> state (engine w) = StateWorking
           \<and> cycles (engine w') = wrap64 (cycles (engine w) + 1)
           \<and> workSessions (engine w') = wrap64 (workSessions (engine w) + 1)"
    by blast+
qed

lemma completeSection_returns:
  assumes "LongBreakInterval (config p) \<noteq> 0"
  shows "\<exists>a p'. completeSection p = Inr (a, p')"
  using assms
  by (cases "state p")
     (auto simp add: completeSection_Working_eq completeSection_break_eq
        completeSection_inactive_eq)

lemma step_returns:
  assumes "LongBreakInterval (config (engine w)) \<noteq> 0"
  shows "\<exists>w'. step x w = Inr w'"
proof (cases x)
  case OpComplete
  from completeSection_returns [OF assms] show ?thesis using OpComplete by auto
qed (auto split: prod.splits option.splits)

lemma run_effect:
  assumes "run xs w = Inr w'"
  shows "config (engine w') = config (engine w)"
    and "cycles (engine w) = workSessions (engine w)
           \<Longrightarrow> cycles (engine w') = workSessions (engine w')"
  using assms
proof (induction xs arbitrary: w)
  case Nil
  { case 1 then show ?case by simp }
  { case 2 then show ?case by simp }
next
  case (Cons x xs)
  { case 1
    then obtain q where q: "step x w = Inr q" "run xs q = Inr w'" by (auto split: sum.splits)
    with Cons.IH(1) [of q] step_effect(1) [of x w q] show ?case by simp }
  { case 2
    then obtain q where q: "step x w = Inr q" "run xs q = Inr w'" by (auto split: sum.splits)
    with 2 Cons.IH(2) [of q] step_effect(2) [of x w q] show ?case by auto }
qed

lemma run_returns:
  assumes "LongBreakInterval (config (engine w)) \<noteq> 0"
  shows "\<exists>w'. run xs w = Inr w'"
  using assms
proof (induction xs arbitrary: w)
  case Nil then show ?case by simp
next
  case (Cons x xs)
  from step_returns [OF Cons.prems, of x] obtain q where q: "step x w = Inr q" by blast
  with step_effect(1) [OF q] Cons.prems have "LongBreakInterval (config (engine q)) \<noteq> 0"
    by simp
  from Cons.IH [OF this] q show ?case by simp
qed

text \<open>
  C10. In every engine state reached from a freshly constructed engine by a sequence of
  \<^verbatim>\<open>Start()\<close>, \<^verbatim>\<open>Pause()\<close>, \<^verbatim>\<open>Stop()\<close> and ticks, in whatever order their critical sections
  run, the completed-cycle counter equals the completed-work-session counter, so
  \<^verbatim>\<open>Cycles()\<close> returns the number of completed work sessions: both start at zero; a
  critical section leaves both as they are, or is a \<^verbatim>\<open>Stop()\<close> that zeroes both, or is a
  pending phase completion that finds the phase Working and increments both by one. The
  sequence runs to its end whenever the long-break interval is not zero.
\<close>

theorem Cycles_counts_work_sessions:
  "Cycles (New cfg) = 0 \<and> workSessions (New cfg) = 0
   \<and> (\<forall>w. run ops (boot (New cfg)) = Inr w \<longrightarrow> Cycles (engine w) = workSessions (engine w))
   \<and> (LongBreakInterval cfg \<noteq> 0 \<longrightarrow> (\<exists>w. run ops (boot (New cfg)) = Inr w))
   \<and> (\<forall>x w w'. step x w = Inr w' \<longrightarrow>
         Cycles (engine w') = Cycles (engine w)
           \<and> workSessions (engine w') = workSessions (engine w)
         \<or> x = OpStop \<and> Cycles (engine w') = 0 \<and> workSessions (engine w') = 0
         \<or> x = OpComplete \<and> 0 < completing w \<and> state (engine w) = StateWorking
            \<and> Cycles (engine w') = wrap64 (Cycles (engine w) + 1)
            \<and> workSessions (engine w') = wrap64 (workSessions (engine w) + 1))"
proof (intro conjI allI impI)
  fix w assume r: "run ops (boot (New cfg)) = Inr w"
  from run_effect(2) [OF r] show "Cycles (engine w) = workSessions (engine w)"
    by (simp add: New_def Cycles_def boot_def)
next
  assume "LongBreakInterval cfg \<noteq> 0"
  then show "\<exists>w. run ops (boot (New cfg)) = Inr w"
    by (intro run_returns) (simp add: New_def boot_def)
next
  fix x w w' assume "step x w = Inr w'"
  from step_effect(2) [OF this]
  show "Cycles (engine w') = Cycles (engine w)
           \<and> workSessions (engine w') = workSessions (engine w)
         \<or> x = OpStop \<and> Cycles (engine w') = 0 \<and> workSessions (engine w') = 0
         \<or> x = OpComplete \<and> 0 < completing w \<and> state (engine w) = StateWorking
            \<and> Cycles (engine w') = wrap64 (Cycles (engine w) + 1)
            \<and> workSessions (engine w') = wrap64 (workSessions (engine w) + 1)"
    by (simp add: Cycles_def)
qed (simp_all add: New_def Cycles_def)

text \<open>The theorem at the scenario's run into its short break, at the completion that
  ends its work phase, and at a \<^verbatim>\<open>Stop()\<close> in the break.\<close>

theorem Cycles_counts_work_sessions_witness:
  "LongBreakInterval (scenario True) \<noteq> 0
   \<and> run firstWorkPhase (boot (New (scenario True))) = Inr (boot inShortBreak)
   \<and> Cycles inShortBreak = workSessions inShortBreak
   \<and> Cycles inShortBreak = 1
   \<and> step OpComplete
        (projr (run [OpStart, OpArm (utc 1), OpTick, OpTick] (boot (New (scenario True)))))
       = Inr ((boot (inShortBreak\<lparr>ticker := None, tickerQuit := None, lastTick := utc 1\<rparr>))
               \<lparr>arming := 1\<rparr>)
   \<and> Cycles (engine (projr (run [OpStart, OpArm (utc 1), OpTick, OpTick]
        (boot (New (scenario True)))))) = 0
   \<and> step OpStop (boot inShortBreak) = Inr (boot (Stop inShortBreak))
   \<and> Cycles (Stop inShortBreak) = 0 \<and> workSessions (Stop inShortBreak) = 0"
  using Cycles_counts_work_sessions [of "scenario True" firstWorkPhase]
  by (simp add: StartSection_eq tickSection_eq startTicker_eq Stop_eq
        completeSection_Working_eq example_defs)

subsection \<open>The session log\<close>

lemma closedByNext_snoc:
  "closedByNext (xs @ [s]) =
     (closedByNext xs \<and>
      (xs = [] \<or> \<not> IsZero (EndTime (last xs))
       \<or> (Task s = Task (last xs) \<and> StartTime s = StartTime (last xs) \<and> \<not> IsZero (EndTime s))))"
  by (induction xs rule: closedByNext.induct) auto

lemma SMStart_cases:
  "SMStart task now f = (r, f') \<Longrightarrow>
     (\<exists>e. r = Inl e \<and> f' = f)
     \<or> (r = Inr \<lparr>Task = task, StartTime = now, EndTime = zeroTime\<rparr>
        \<and> f' = f @ [\<lparr>Task = task, StartTime = now, EndTime = zeroTime\<rparr>]
        \<and> task \<noteq> [] \<and> \<not> IsZero now
        \<and> (f = [] \<or> \<not> IsZero (EndTime (last f))))"
  by (auto simp: SMStart_def GetLast_def GetAll_def Save_def Let_def
           split: if_splits sum.splits prod.splits option.splits)

lemma Finish_cases:
  "Finish now f = (r, f') \<Longrightarrow>
     (\<exists>e. r = Inl e \<and> f' = f)
     \<or> (r = Inr ((last f)\<lparr>EndTime := now\<rparr>)
        \<and> f' = f @ [(last f)\<lparr>EndTime := now\<rparr>]
        \<and> f \<noteq> [] \<and> IsZero (EndTime (last f)))"
  by (auto simp: Finish_def GetAll_def Save_def Let_def
           split: if_splits sum.splits prod.splits option.splits)

lemma SMStart_open_fails:
  assumes "f \<noteq> []" "IsZero (EndTime (last f))"
  shows "\<exists>e. SMStart task now f = (Inl e, f)"
  using assms by (auto simp: SMStart_def GetLast_def GetAll_def Save_def Let_def)

lemma logstep_closedByNext:
  assumes "closedByNext f" "clockOk x"
  shows "closedByNext (logstep x f)"
proof (cases x)
  case (LogStart task now)
  obtain r f' where e: "SMStart task now f = (r, f')" by (cases "SMStart task now f")
  from SMStart_cases [OF e] assms(1) have "closedByNext f'"
    by (auto simp: closedByNext_snoc)
  with e LogStart show ?thesis by simp
next
  case (LogFinish now)
  obtain r f' where e: "Finish now f = (r, f')" by (cases "Finish now f")
  from Finish_cases [OF e] assms LogFinish have "closedByNext f'"
    by (auto simp: closedByNext_snoc)
  with e LogFinish show ?thesis by simp
qed

lemma logrun_closedByNext:
  "closedByNext f \<Longrightarrow> list_all clockOk ops \<Longrightarrow> closedByNext (logrun ops f)"
  by (induction ops arbitrary: f) (simp_all add: logstep_closedByNext)

text \<open>
  C8 (amended). For every sequence of \<^verbatim>\<open>SessionManager.Start\<close> and
  \<^verbatim>\<open>SessionManager.Finish\<close> operations on an empty log, a stored record with a zero end
  timestamp is either the last record or directly followed by its closed copy (same task
  and start, non-zero end): at most one session is open, and it is the last record.
  Starting fails, and stores nothing, while the last record is open. A successful finish
  appends the closed copy of the last record, so that the last record has a non-zero end
  afterwards; the record with the zero end timestamp stays in the list.
\<close>

theorem log_open_session_is_last:
  assumes "list_all clockOk ops"
  shows "closedByNext (logrun ops [])
       \<and> (\<forall>task now. logrun ops [] \<noteq> [] \<and> IsZero (EndTime (last (logrun ops []))) \<longrightarrow>
             (\<exists>e. SMStart task now (logrun ops []) = (Inl e, logrun ops [])))
       \<and> (\<forall>now s. \<not> IsZero now \<and> fst (Finish now (logrun ops [])) = Inr s \<longrightarrow>
             snd (Finish now (logrun ops [])) = logrun ops [] @ [s]
             \<and> \<not> IsZero (EndTime (last (snd (Finish now (logrun ops [])))))
             \<and> openSessions (snd (Finish now (logrun ops []))) = openSessions (logrun ops []))"
proof (intro conjI allI impI)
  show "closedByNext (logrun ops [])" using assms by (intro logrun_closedByNext) simp_all
next
  fix task now assume "logrun ops [] \<noteq> [] \<and> IsZero (EndTime (last (logrun ops [])))"
  then show "\<exists>e. SMStart task now (logrun ops []) = (Inl e, logrun ops [])"
    by (intro SMStart_open_fails) simp_all
next
  fix now s
  assume h: "\<not> IsZero now \<and> fst (Finish now (logrun ops [])) = Inr s"
  let ?f = "logrun ops []"
  obtain r f' where e: "Finish now ?f = (r, f')" by (cases "Finish now ?f")
  with h have r: "r = Inr s" by simp
  from Finish_cases [OF e] r
  have f: "s = (last ?f)\<lparr>EndTime := now\<rparr>" "f' = ?f @ [s]" by auto
  show "snd (Finish now ?f) = ?f @ [s]" using e f by simp
  show "\<not> IsZero (EndTime (last (snd (Finish now ?f))))" using e f h by (simp add: IsZero_def)
  show "openSessions (snd (Finish now ?f)) = openSessions ?f"
    using e f h by (simp add: openSessions_def IsZero_def)
qed

text \<open>The theorem at a log with one started session: a second start fails, the finish
  appends the closed copy.\<close>

theorem log_open_session_is_last_witness:
  "list_all clockOk [LogStart ''a'' (utc 10)]
   \<and> logrun [LogStart ''a'' (utc 10)] []
       = [\<lparr>Task = ''a'', StartTime = utc 10, EndTime = zeroTime\<rparr>]
   \<and> closedByNext (logrun [LogStart ''a'' (utc 10)] [])
   \<and> SMStart ''b'' (utc 15) (logrun [LogStart ''a'' (utc 10)] [])
       = (Inl (ErrPreviousNotFinished ''a''), logrun [LogStart ''a'' (utc 10)] [])
   \<and> \<not> IsZero (utc 20)
   \<and> fst (Finish (utc 20) (logrun [LogStart ''a'' (utc 10)] []))
       = Inr \<lparr>Task = ''a'', StartTime = utc 10, EndTime = utc 20\<rparr>
   \<and> snd (Finish (utc 20) (logrun [LogStart ''a'' (utc 10)] []))
       = [\<lparr>Task = ''a'', StartTime = utc 10, EndTime = zeroTime\<rparr>,
          \<lparr>Task = ''a'', StartTime = utc 10, EndTime = utc 20\<rparr>]"
  using log_open_session_is_last [of "[LogStart ''a'' (utc 10)]"]
  by (simp add: SMStart_def Finish_def GetLast_def GetAll_def Save_def IsZero_def utc_def
        zeroTime_def Let_def)

text \<open>
  The claim as stated fails: after a start and a finish the record with the zero end
  timestamp is still stored, and after the next start two stored records have a zero end
  timestamp.
\<close>

theorem log_zero_end_counterexample:
  "logrun [LogStart ''a'' (utc 10), LogFinish (utc 20)] []
     = [\<lparr>Task = ''a'', StartTime = utc 10, EndTime = zeroTime\<rparr>,
        \<lparr>Task = ''a'', StartTime = utc 10, EndTime = utc 20\<rparr>]
   \<and> length (openSessions (logrun [LogStart ''a'' (utc 10), LogFinish (utc 20)] [])) = 1
   \<and> logrun [LogStart ''a'' (utc 10), LogFinish (utc 20), LogStart ''b'' (utc 30)] []
     = [\<lparr>Task = ''a'', StartTime = utc 10, EndTime = zeroTime\<rparr>,
        \<lparr>Task = ''a'', StartTime = utc 10, EndTime = utc 20\<rparr>,
        \<lparr>Task = ''b'', StartTime = utc 30, EndTime = zeroTime\<rparr>]
   \<and> length (openSessions
        (logrun [LogStart ''a'' (utc 10), LogFinish (utc 20), LogStart ''b'' (utc 30)] [])) = 2"
  by (simp add: SMStart_def Finish_def GetLast_def GetAll_def Save_def IsZero_def utc_def
        zeroTime_def openSessions_def Let_def)

subsection \<open>Analytics\<close>

text \<open>The key order that a \<^verbatim>\<open>range\<close> over a map takes is an order of the map's keys.\<close>

lemma visit_mset:
  assumes "distinct ks"
  shows "mset (visit order ks) = mset ks"
  using assms set_eq_iff_mset_eq_distinct [of "order ks" ks] by (auto simp: visit_def)

lemma daySetLoop_distinct: "distinct daySet \<Longrightarrow> distinct (daySetLoop ssns daySet)"
  by (induction ssns arbitrary: daySet) (simp_all add: Let_def)

text \<open>The streak loop reads its times with \<^verbatim>\<open>Sub\<close>, which takes their instants only.\<close>

lemma streakLoop_nanos:
  assumes "map nanos xs = map nanos ys" and "nanos a = nanos b"
  shows "streakLoop xs a c m = streakLoop ys b c m"
  using assms
proof (induction xs arbitrary: ys a b c m)
  case Nil
  then show ?case by simp
next
  case (Cons x xs)
  then obtain y ys' where ys: "ys = y # ys'" "nanos x = nanos y" "map nanos xs = map nanos ys'"
    by (cases ys) auto
  have s: "Sub x a = Sub y b" using ys(2) Cons.prems(2) by (simp add: Sub_def)
  show ?case
    using Cons.IH [OF ys(3) ys(2)] s by (simp add: ys(1))
qed

text \<open>Two sorted slices of the same times hold the same instants in the same order.\<close>

lemma sorted_times_unique:
  assumes "mset s = mset s'"
    and "sorted_wrt (\<lambda>a b. \<not> Before b a) s" and "sorted_wrt (\<lambda>a b. \<not> Before b a) s'"
  shows "map nanos s = map nanos s'"
proof -
  have le: "(\<lambda>a b. \<not> Before b a) = (\<lambda>a b. nanos a \<le> nanos b)"
    by (auto simp: Before_def fun_eq_iff)
  have "sorted (map nanos s)" "sorted (map nanos s')"
    using assms(2,3) by (simp_all add: le sorted_map)
  moreover have "mset (map nanos s) = mset (map nanos s')"
    using assms(1) by simp
  ultimately show ?thesis
    by (metis properties_for_sort)
qed

lemma CalculateLongestStreak_order:
  assumes "sortsTimes L"
  shows "CalculateLongestStreak L e ssns = CalculateLongestStreak L e' ssns"
proof -
  let ?ds = "daySetLoop ssns []"
  let ?s = "sortTimes L Before (map (Parse L) (visit (dayOrder e) ?ds))"
  let ?s' = "sortTimes L Before (map (Parse L) (visit (dayOrder e') ?ds))"
  have d: "distinct ?ds" by (rule daySetLoop_distinct) simp
  have "mset (visit (dayOrder e) ?ds) = mset (visit (dayOrder e') ?ds)"
    using visit_mset [OF d] by simp
  then have "mset (map (Parse L) (visit (dayOrder e) ?ds))
             = mset (map (Parse L) (visit (dayOrder e') ?ds))"
    by simp
  then have m: "mset ?s = mset ?s'"
    using assms by (simp add: sortsTimes_def)
  have "sorted_wrt (\<lambda>a b. \<not> Before b a) ?s" "sorted_wrt (\<lambda>a b. \<not> Before b a) ?s'"
    using assms by (simp_all add: sortsTimes_def)
  from sorted_times_unique [OF m this] have n: "map nanos ?s = map nanos ?s'" .
  have "(case ?s of [] \<Rightarrow> 0 | first # rest \<Rightarrow> streakLoop rest first 1 1)
        = (case ?s' of [] \<Rightarrow> 0 | first # rest \<Rightarrow> streakLoop rest first 1 1)"
  proof (cases ?s)
    case Nil
    with n show ?thesis by simp
  next
    case (Cons a as)
    with n obtain b bs where b: "?s' = b # bs" "nanos a = nanos b" "map nanos as = map nanos bs"
      by (cases ?s') auto
    from streakLoop_nanos [OF b(3) b(2)] Cons b(1) show ?thesis by simp
  qed
  then show ?thesis by (simp add: CalculateLongestStreak_def Let_def)
qed

text \<open>The insertion sort sorts.\<close>

lemma sink_mset: "mset (sink lessFn x ys) = add_mset x (mset ys)"
  by (induction ys) simp_all

lemma insertionLoop_mset: "mset (insertionLoop lessFn xs placed) = mset xs + mset placed"
  by (induction xs arbitrary: placed) (simp_all add: sink_mset)

lemma sink_set: "set (sink lessFn x ys) = insert x (set ys)"
  by (induction ys) auto

lemma sink_sorted:
  assumes "sorted_wrt (\<lambda>a b. nanos b \<le> nanos a) ys"
  shows "sorted_wrt (\<lambda>a b. nanos b \<le> nanos a) (sink Before x ys)"
  using assms
proof (induction ys)
  case Nil
  then show ?case by simp
next
  case (Cons y ys)
  then show ?case by (auto simp: sink_set Before_def)
qed

lemma insertionLoop_sorted:
  assumes "sorted_wrt (\<lambda>a b. nanos b \<le> nanos a) placed"
  shows "sorted_wrt (\<lambda>a b. nanos a \<le> nanos b) (insertionLoop Before xs placed)"
  using assms
proof (induction xs arbitrary: placed)
  case Nil
  then show ?case by (simp add: sorted_wrt_rev)
next
  case (Cons x xs)
  from Cons.IH [OF sink_sorted [OF Cons.prems]] show ?case by simp
qed

lemma sortsTimes_fixedZones: "sortsTimes fixedZones"
proof -
  have le: "(\<lambda>a b. \<not> Before b a) = (\<lambda>a b. nanos a \<le> nanos b)"
    by (auto simp: Before_def fun_eq_iff)
  have "sorted_wrt (\<lambda>a b. nanos a \<le> nanos b) (insertionLoop Before ts [])" for ts
    by (rule insertionLoop_sorted) simp
  then show ?thesis
    by (simp add: sortsTimes_def fixedZones_def insertionSort_def insertionLoop_mset le)
qed

text \<open>
  C9 (amended). What a function of the package returns is determined by its arguments
  and by what the function reads outside them. \<^verbatim>\<open>CalculateTotalDuration\<close>,
  \<^verbatim>\<open>CalculateConsecutiveDays\<close>, \<^verbatim>\<open>CalculateLongestStreak\<close> and \<^verbatim>\<open>GetProductivityScore\<close> read
  nothing that can differ between two evaluations: they return equal results on equal
  arguments, whatever the clock shows and in whatever order the runtime visits their
  maps. \<^verbatim>\<open>CalculateTodayDuration\<close>, \<^verbatim>\<open>CalculateWeeklyDuration\<close>, \<^verbatim>\<open>CalculateMonthlyDuration\<close> and
  \<^verbatim>\<open>CalculateYearlyDuration\<close> read the wall clock: two evaluations on equal arguments
  return equal results when the clock shows the same day, respectively has the same
  start of the week, month and year, at both. \<^verbatim>\<open>GetTopTasks\<close> returns equal results when
  the runtime visits the tasks of its map in the same order at both. This holds for any
  calendar and zone rules of package \<^verbatim>\<open>time\<close> and any arithmetic of \<^verbatim>\<open>float64\<close>, with a
  \<^verbatim>\<open>sort.Slice\<close> that sorts times.
\<close>

theorem analytics_equal_in_agreeing_environments:
  assumes "sortsTimes L" and "agree L c e e'"
  shows "returnOf F L e c = returnOf F L e' c"
proof (cases c)
  case (CallTotalDuration ssns task)
  then show ?thesis by simp
next
  case (CallTodayDuration ssns task)
  with assms(2) show ?thesis by (simp add: CalculateTodayDuration_def)
next
  case (CallConsecutiveDays ssns)
  then show ?thesis by simp
next
  case (CallWeeklyDuration ssns task)
  with assms(2) show ?thesis by (simp add: CalculateWeeklyDuration_def)
next
  case (CallMonthlyDuration ssns task)
  with assms(2) show ?thesis by (simp add: CalculateMonthlyDuration_def)
next
  case (CallYearlyDuration ssns task)
  with assms(2) show ?thesis by (simp add: CalculateYearlyDuration_def)
next
  case (CallTopTasks ssns limit)
  with assms(2) show ?thesis by (simp add: GetTopTasks_def)
next
  case (CallLongestStreak ssns)
  with CalculateLongestStreak_order [OF assms(1), of e ssns e'] show ?thesis by simp
next
  case (CallProductivityScore ssns)
  with CalculateLongestStreak_order [OF assms(1), of e ssns e'] show ?thesis
    by (simp add: GetProductivityScore_def)
qed

text \<open>
  The theorem in UTC, at the sessions of Monday and Tuesday: asked about at noon and in
  the evening of that Monday, on the Tuesday (same week, month and year), a year later,
  and with the maps visited in the one and in the other order.
\<close>

theorem analytics_equal_in_agreeing_environments_witness:
  "agree fixedZones (CallTodayDuration [monday, tuesday] [])
     (envAt (utcAt 2023 1 2 12)) (envReversed (utcAt 2023 1 2 18))
   \<and> returnOf exact fixedZones (envAt (utcAt 2023 1 2 12)) (CallTodayDuration [monday, tuesday] [])
       = ReturnedDuration (1 * Hour)
   \<and> returnOf exact fixedZones (envReversed (utcAt 2023 1 2 18))
        (CallTodayDuration [monday, tuesday] [])
       = ReturnedDuration (1 * Hour)
   \<and> agree fixedZones (CallWeeklyDuration [monday, tuesday] [])
       (envAt (utcAt 2023 1 2 12)) (envAt (utcAt 2023 1 3 12))
   \<and> returnOf exact fixedZones (envAt (utcAt 2023 1 2 12))
        (CallWeeklyDuration [monday, tuesday] [])
       = ReturnedDuration (2 * Hour)
   \<and> returnOf exact fixedZones (envAt (utcAt 2023 1 3 12))
        (CallWeeklyDuration [monday, tuesday] [])
       = ReturnedDuration (2 * Hour)
   \<and> agree fixedZones (CallLongestStreak [monday, tuesday])
       (envAt (utcAt 2023 1 2 12)) (envReversed (utcAt 2024 1 1 0))
   \<and> returnOf exact fixedZones (envAt (utcAt 2023 1 2 12)) (CallLongestStreak [monday, tuesday])
       = ReturnedInt 2
   \<and> returnOf exact fixedZones (envReversed (utcAt 2024 1 1 0))
        (CallLongestStreak [monday, tuesday])
       = ReturnedInt 2
   \<and> agree fixedZones (CallTopTasks [monday, tuesday] 1)
       (envAt (utcAt 2023 1 2 12)) (envAt (utcAt 2024 1 1 0))
   \<and> returnOf exact fixedZones (envAt (utcAt 2023 1 2 12)) (CallTopTasks [monday, tuesday] 1)
       = ReturnedStats [TaskStats ''a'' (1 * Hour)]
   \<and> returnOf exact fixedZones (envAt (utcAt 2024 1 1 0)) (CallTopTasks [monday, tuesday] 1)
       = ReturnedStats [TaskStats ''a'' (1 * Hour)]
   \<and> agree fixedZones (CallConsecutiveDays [monday, tuesday])
       (envAt (utcAt 2023 1 2 12)) (envReversed (utcAt 2024 1 1 0))
   \<and> returnOf exact fixedZones (envAt (utcAt 2023 1 2 12))
        (CallConsecutiveDays [monday, tuesday])
       = ReturnedInt 2
   \<and> returnOf exact fixedZones (envReversed (utcAt 2024 1 1 0))
        (CallConsecutiveDays [monday, tuesday])
       = ReturnedInt 2"
  using analytics_equal_in_agreeing_environments [OF sortsTimes_fixedZones,
      of "CallTodayDuration [monday, tuesday] []" "envAt (utcAt 2023 1 2 12)"
         "envReversed (utcAt 2023 1 2 18)" exact]
    analytics_equal_in_agreeing_environments [OF sortsTimes_fixedZones,
      of "CallWeeklyDuration [monday, tuesday] []" "envAt (utcAt 2023 1 2 12)"
         "envAt (utcAt 2023 1 3 12)" exact]
    analytics_equal_in_agreeing_environments [OF sortsTimes_fixedZones,
      of "CallLongestStreak [monday, tuesday]" "envAt (utcAt 2023 1 2 12)"
         "envReversed (utcAt 2024 1 1 0)" exact]
    analytics_equal_in_agreeing_environments [OF sortsTimes_fixedZones,
      of "CallTopTasks [monday, tuesday] 1" "envAt (utcAt 2023 1 2 12)"
         "envAt (utcAt 2024 1 1 0)" exact]
    analytics_equal_in_agreeing_environments [OF sortsTimes_fixedZones,
      of "CallConsecutiveDays [monday, tuesday]" "envAt (utcAt 2023 1 2 12)"
         "envReversed (utcAt 2024 1 1 0)" exact]
  by code_simp

text \<open>
  The claim as stated fails: on the same session list and task filter the daily total is
  one hour when the clock shows that Monday and nothing on the next day, and the weekly,
  monthly and yearly totals are gone a week, a month and a year later; and of two tasks
  with one hour each, \<^verbatim>\<open>GetTopTasks\<close> with limit 1 returns the one that the runtime happens
  to visit first in its map.
\<close>

theorem analytics_pure_counterexample:
  "returnOf exact fixedZones (envAt (utcAt 2023 1 2 12)) (CallTodayDuration [monday] [])
     = ReturnedDuration (1 * Hour)
   \<and> returnOf exact fixedZones (envAt (utcAt 2023 1 3 12)) (CallTodayDuration [monday] [])
     = ReturnedDuration 0
   \<and> returnOf exact fixedZones (envAt (utcAt 2023 1 2 12)) (CallWeeklyDuration [monday] [])
     = ReturnedDuration (1 * Hour)
   \<and> returnOf exact fixedZones (envAt (utcAt 2023 1 9 12)) (CallWeeklyDuration [monday] [])
     = ReturnedDuration 0
   \<and> returnOf exact fixedZones (envAt (utcAt 2023 1 2 12)) (CallMonthlyDuration [monday] [])
     = ReturnedDuration (1 * Hour)
   \<and> returnOf exact fixedZones (envAt (utcAt 2023 2 1 12)) (CallMonthlyDuration [monday] [])
     = ReturnedDuration 0
   \<and> returnOf exact fixedZones (envAt (utcAt 2023 1 2 12)) (CallYearlyDuration [monday] [])
     = ReturnedDuration (1 * Hour)
   \<and> returnOf exact fixedZones (envAt (utcAt 2024 1 1 12)) (CallYearlyDuration [monday] [])
     = ReturnedDuration 0
   \<and> returnOf exact fixedZones (envAt (utcAt 2023 1 3 12)) (CallTopTasks [monday, tuesday] 1)
     = ReturnedStats [TaskStats ''a'' (1 * Hour)]
   \<and> returnOf exact fixedZones (envReversed (utcAt 2023 1 3 12))
        (CallTopTasks [monday, tuesday] 1)
     = ReturnedStats [TaskStats ''b'' (1 * Hour)]"
  by code_simp

end
